theory Spec2Isabelle
  imports Complex_Main "HOL-Library.Sublist" "HOL-Library.AList"
begin

section \<open>JavaScript values\<close>

text \<open>
  Response bodies and the values read out of them are JavaScript values. Numbers in a
  body are taken to be integers (ids, counters); \<open>JUndefined\<close> is what a property
  read yields when the key is missing. An object is the list of its own properties, the
  first binding of a key being the one that is read.
\<close>

datatype json =
    JUndefined
  | JNull
  | JBool bool
  | JNum int
  | JStr string
  | JArr "json list"
  | JObj "(string \<times> json) list"

text \<open>
  The number held by a pagination parameter: \<open>undefined + 1\<close> is \<open>NaN\<close> in
  JavaScript, and \<open>NaN\<close> is equal to nothing.
\<close>

datatype jsnumber = Num int | NaN

datatype error =
    AccessTokenRequired
  | ValidationError string
  | TypeError
  | TransportError json
  | ToolError string

text \<open>\<open>value[key]\<close> for the fixed keys this client reads (none is an index or \<open>length\<close>).\<close>

fun js_prop :: "json \<Rightarrow> string \<Rightarrow> json" where
  "js_prop (JObj kvs) k = (case map_of kvs k of None \<Rightarrow> JUndefined | Some v \<Rightarrow> v)"
| "js_prop _ k = JUndefined"

text \<open>\<open>key in Object(value)\<close> for the dotted paths this client reads: only an object has such a
  key, and has it when the key is among its properties.\<close>

fun has_key :: "json \<Rightarrow> string \<Rightarrow> bool" where
  "has_key (JObj kvs) k = (k \<in> set (map fst kvs))"
| "has_key _ k = False"

text \<open>
  \<open>_.get(object, path)\<close> for a path without brackets. lodash first casts the path: a path
  without a dot is one key; a path with dots is one key too when the object has a
  property of exactly that name, and is split at its dots otherwise. It then walks the
  keys, giving \<open>undefined\<close> as soon as it stands on \<open>null\<close> or \<open>undefined\<close>.
\<close>

fun stringToPath :: "string \<Rightarrow> string list" where
  "stringToPath [] = [[]]"
| "stringToPath (c # cs) =
     (if c = CHR ''.'' then [] # stringToPath cs
      else (case stringToPath cs of [] \<Rightarrow> [[c]] | k # ks \<Rightarrow> (c # k) # ks))"

definition isKey :: "string \<Rightarrow> json \<Rightarrow> bool" where
  "isKey path obj = (CHR ''.'' \<notin> set path \<or> has_key obj path)"

definition castPath :: "string \<Rightarrow> json \<Rightarrow> string list" where
  "castPath path obj = (if isKey path obj then [path] else stringToPath path)"

fun baseGet :: "json \<Rightarrow> string list \<Rightarrow> json" where
  "baseGet v [] = v"
| "baseGet v (k # ks) =
     (if v = JNull \<or> v = JUndefined then JUndefined else baseGet (js_prop v k) ks)"

definition lodash_get :: "json \<Rightarrow> string \<Rightarrow> json" where
  "lodash_get obj path =
     (if obj = JNull \<or> obj = JUndefined then JUndefined else baseGet obj (castPath path obj))"

text \<open>\<open>_.get(object, path, defaultValue)\<close>: the default stands in for \<open>undefined\<close> only.\<close>

definition lodash_get_default :: "json \<Rightarrow> string \<Rightarrow> json \<Rightarrow> json" where
  "lodash_get_default v path d =
     (let r = lodash_get v path in if r = JUndefined then d else r)"

text \<open>\<open>_.concat(rows, data)\<close>: an array is appended element by element, any other value as one element.\<close>

fun lodash_concat :: "json list \<Rightarrow> json \<Rightarrow> json list" where
  "lodash_concat rows (JArr xs) = rows @ xs"
| "lodash_concat rows v = rows @ [v]"

text \<open>\<open>_.size(data)\<close>: the length of an array or a string; for an object its \<open>length\<close> when that
  is a valid length (the object is array-like) and the number of its keys otherwise; 0 for
  anything else.\<close>

fun lodash_size :: "json \<Rightarrow> nat" where
  "lodash_size (JArr xs) = length xs"
| "lodash_size (JStr s) = length s"
| "lodash_size (JObj kvs) =
     (case js_prop (JObj kvs) ''length'' of
        JNum n \<Rightarrow>
          if 0 \<le> n \<and> n \<le> 9007199254740991 then nat n
          else length (remdups (map fst kvs))
      | _ \<Rightarrow> length (remdups (map fst kvs)))"
| "lodash_size _ = 0"

text \<open>\<open>_.startsWith(s, target)\<close> and \<open>_.replace(s, pattern, replacement)\<close> on strings; a string
  pattern replaces its first occurrence only.\<close>

definition lodash_startsWith :: "string \<Rightarrow> string \<Rightarrow> bool" where
  "lodash_startsWith s target = prefix target s"

fun lodash_replace :: "string \<Rightarrow> string \<Rightarrow> string \<Rightarrow> string" where
  "lodash_replace [] pat rep = (if pat = [] then rep else [])"
| "lodash_replace (c # cs) pat rep =
     (if prefix pat (c # cs) then rep @ drop (length pat) (c # cs)
      else c # lodash_replace cs pat rep)"

text \<open>\<open>_.isEmpty\<close> on a value that is a string or \<open>undefined\<close>.\<close>

definition lodash_isEmpty :: "string option \<Rightarrow> bool" where
  "lodash_isEmpty v = (case v of None \<Rightarrow> True | Some s \<Rightarrow> s = [])"

text \<open>\<open>const { data } = result\<close>: destructuring \<open>null\<close> or \<open>undefined\<close> throws.\<close>

definition destructure_data :: "json \<Rightarrow> error + json" where
  "destructure_data result =
     (if result = JNull \<or> result = JUndefined then Inl TypeError
      else Inr (js_prop result ''data''))"

section \<open>Parameter objects\<close>

text \<open>
  Modelled from the spec: the input interfaces (\<open>../types/input\<close>, \<open>../types/gitee\<close>) are not
  among the sources. A parameter object carries the keys the client reads or writes, each
  absent (\<open>None\<close>, JavaScript's \<open>undefined\<close>) or present with the type the code uses it at,
  and its remaining own properties in \<open>rest\<close>. The type \<open>'h\<close> is that of \<open>hook_id\<close>.
\<close>

record 'h params =
  owner :: "string option"
  repo :: "string option"
  ref :: "string option"
  hook_id :: "'h option"
  per_page :: "jsnumber option"
  page :: "jsnumber option"
  sort_key :: "string option"
  access_token :: "string option"
  affiliation :: "string option"
  rest :: "(string \<times> json) list"

text \<open>The object literal \<open>{}\<close>.\<close>

definition empty_params :: "'h params" where
  "empty_params = \<lparr> owner = None, repo = None, ref = None, hook_id = None, per_page = None,
     page = None, sort_key = None, access_token = None, affiliation = None, rest = [] \<rparr>"

definition or_default :: "'a option \<Rightarrow> 'a option \<Rightarrow> 'a option" where
  "or_default v d = (case v of None \<Rightarrow> d | Some x \<Rightarrow> Some x)"

definition rest_defaults :: "(string \<times> json) list \<Rightarrow> (string \<times> json) list \<Rightarrow> (string \<times> json) list" where
  "rest_defaults obj src =
     fold (\<lambda>(k, v) acc. if js_prop (JObj acc) k = JUndefined then AList.update k v acc else acc)
       src obj"

text \<open>\<open>_.defaults(object, source)\<close>: every key of \<open>object\<close> that resolves to \<open>undefined\<close> takes
  the value \<open>source\<close> has for it. The object is changed in place; the model returns it.\<close>

definition lodash_defaults :: "'h params \<Rightarrow> 'h params \<Rightarrow> 'h params" where
  "lodash_defaults obj src =
     \<lparr> owner = or_default (owner obj) (owner src),
       repo = or_default (repo obj) (repo src),
       ref = or_default (ref obj) (ref src),
       hook_id = or_default (hook_id obj) (hook_id src),
       per_page = or_default (per_page obj) (per_page src),
       page = or_default (page obj) (page src),
       sort_key = or_default (sort_key obj) (sort_key src),
       access_token = or_default (access_token obj) (access_token src),
       affiliation = or_default (affiliation obj) (affiliation src),
       rest = rest_defaults (rest obj) (rest src) \<rparr>"

text \<open>\<open>_.omit(params, ['owner', 'repo', 'hook_id'])\<close>: a new object without these keys.\<close>

definition omit_owner_repo_hook_id :: "'h params \<Rightarrow> 'h params" where
  "omit_owner_repo_hook_id ps = ps\<lparr> owner := None, repo := None, hook_id := None \<rparr>"

text \<open>\<open>params.page as number + 1\<close>, on integers. The code adds doubles, which is this sum as
  long as the result stays within \<open>2^53\<close> of zero; the statements about page numbers other
  than those of a fetch started at page 1 keep to that range.\<close>

definition page_plus_one :: "jsnumber option \<Rightarrow> jsnumber option" where
  "page_plus_one p = (case p of Some (Num n) \<Rightarrow> Some (Num (n + 1)) | _ \<Rightarrow> Some NaN)"

section \<open>The transport\<close>

text \<open>
  A request is the configuration handed to \<open>axios\<close>. The transport is any function of the
  request and of the state of the network, answering with a response object or failing.
  The world also keeps the history of the exchanges, in order.
\<close>

record 'h request =
  req_method :: string
  req_url :: string
  req_params :: "'h params"

type_synonym ('h, 'w) transport = "'h request \<Rightarrow> 'w \<Rightarrow> (error + json) \<times> 'w"

record ('h, 'w) world =
  trace :: "('h request \<times> (error + json)) list"
  net :: 'w

section \<open>The base client\<close>

record git_config =
  config_access_token :: "string option"

text \<open>Modelled from the spec: the constructor of \<open>Base\<close> (\<open>./base\<close> is not among the sources)
  stores the configuration and raises nothing.\<close>

definition Base_constructor :: "git_config \<Rightarrow> error + unit" where
  "Base_constructor config = Inr ()"

text \<open>Modelled from the spec: the validation methods of \<open>Base\<close> (\<open>./base\<close> is not among the
  sources). Each checks that the required parameters of its operation are present, in the
  order given, and raises at the first one that is missing; that a parameter which is
  present has the right type is part of the type of the parameter object. The required
  parameters of an operation are those it takes out of the parameter object to build its
  path.\<close>

fun validate_required :: "(string \<times> bool) list \<Rightarrow> error + unit" where
  "validate_required [] = Inr ()"
| "validate_required ((k, present) # ks) =
     (if present then validate_required ks else Inl (ValidationError k))"

definition validateListBranchsParams :: "'h params \<Rightarrow> error + unit" where
  "validateListBranchsParams ps =
     validate_required [(''owner'', owner ps \<noteq> None), (''repo'', repo ps \<noteq> None)]"

definition validateGetRefCommitParams :: "'h params \<Rightarrow> error + unit" where
  "validateGetRefCommitParams ps =
     validate_required [(''owner'', owner ps \<noteq> None), (''repo'', repo ps \<noteq> None),
       (''ref'', ref ps \<noteq> None)]"

definition validateListWebhookParams :: "'h params \<Rightarrow> error + unit" where
  "validateListWebhookParams ps =
     validate_required [(''owner'', owner ps \<noteq> None), (''repo'', repo ps \<noteq> None)]"

definition validateCreateWebhookParams :: "'h params \<Rightarrow> error + unit" where
  "validateCreateWebhookParams ps =
     validate_required [(''owner'', owner ps \<noteq> None), (''repo'', repo ps \<noteq> None)]"

definition validateUpdateWebhookParams :: "'h params \<Rightarrow> error + unit" where
  "validateUpdateWebhookParams ps =
     validate_required [(''owner'', owner ps \<noteq> None), (''repo'', repo ps \<noteq> None),
       (''hook_id'', hook_id ps \<noteq> None)]"

definition validateGetWebhookParams :: "'h params \<Rightarrow> error + unit" where
  "validateGetWebhookParams ps =
     validate_required [(''owner'', owner ps \<noteq> None), (''repo'', repo ps \<noteq> None),
       (''hook_id'', hook_id ps \<noteq> None)]"

definition validateDeleteWebhookParams :: "'h params \<Rightarrow> error + unit" where
  "validateDeleteWebhookParams ps =
     validate_required [(''owner'', owner ps \<noteq> None), (''repo'', repo ps \<noteq> None),
       (''hook_id'', hook_id ps \<noteq> None)]"

section \<open>The Gitee client\<close>

definition V5 :: string where
  "V5 = ''https://gitee.com/api/v5''"

text \<open>The private field \<open>PARAMS\<close>: set once, read only.\<close>

definition PARAMS :: "'h params" where
  "PARAMS = empty_params\<lparr> per_page := Some (Num 100), page := Some (Num 1),
     sort_key := Some ''updated'' \<rparr>"

record gitee =
  gitee_access_token :: string

definition constructor :: "git_config \<Rightarrow> error + gitee" where
  "constructor config =
     (case Base_constructor config of
        Inl e \<Rightarrow> Inl e
      | Inr _ \<Rightarrow>
          (let access_token = config_access_token config in
           if lodash_isEmpty access_token then Inl AccessTokenRequired
           else (case access_token of
                   None \<Rightarrow> Inl AccessTokenRequired
                 | Some t \<Rightarrow> Inr \<lparr> gitee_access_token = t \<rparr>)))"

text \<open>A string or \<open>undefined\<close> inside a template literal, and under lodash's \<open>toString\<close>.\<close>

definition template :: "string option \<Rightarrow> string" where
  "template v = (case v of None \<Rightarrow> ''undefined'' | Some s \<Rightarrow> s)"

definition lodash_toString :: "string option \<Rightarrow> string" where
  "lodash_toString v = (case v of None \<Rightarrow> [] | Some s \<Rightarrow> s)"

definition requestV5 ::
  "('h, 'w) transport \<Rightarrow> gitee \<Rightarrow> string \<Rightarrow> string \<Rightarrow> 'h params \<Rightarrow> ('h, 'w) world
     \<Rightarrow> (error + json) \<times> 'h params \<times> ('h, 'w) world" where
  "requestV5 axios this path method ps w =
     (let p = lodash_defaults ps (empty_params\<lparr> access_token := Some (gitee_access_token this) \<rparr>);
          rq = \<lparr> req_method = method, req_url = V5 @ path, req_params = p \<rparr>;
          (r, n) = axios rq (net w)
      in (r, p, \<lparr> trace = trace w @ [(rq, r)], net = n \<rparr>))"

text \<open>One turn of the \<open>do ... while\<close> of \<open>requestList\<close>: \<open>Inl\<close> leaves the loop (with the rows, or
  with what was thrown), \<open>Inr\<close> goes round again.\<close>

definition requestList_body ::
  "('h, 'w) transport \<Rightarrow> gitee \<Rightarrow> string \<Rightarrow> json list \<Rightarrow> 'h params \<Rightarrow> ('h, 'w) world
     \<Rightarrow> ((error + json list) \<times> 'h params \<times> ('h, 'w) world)
       + (json list \<times> 'h params \<times> ('h, 'w) world)" where
  "requestList_body axios this url rows ps w =
     (case requestV5 axios this url ''GET'' ps w of
        (Inl e, ps1, w1) \<Rightarrow> Inl (Inl e, ps1, w1)
      | (Inr result, ps1, w1) \<Rightarrow>
          (case destructure_data result of
             Inl e \<Rightarrow> Inl (Inl e, ps1, w1)
           | Inr data \<Rightarrow>
               (let rows1 = lodash_concat rows data;
                    rowLength = lodash_size data;
                    ps2 = ps1\<lparr> page := page_plus_one (page ps1) \<rparr>
                in if Some (Num (int rowLength)) = per_page ps2
                   then Inr (rows1, ps2, w1)
                   else Inl (Inr rows1, ps2, w1))))"

partial_function (option) requestList_loop ::
  "('h, 'w) transport \<Rightarrow> gitee \<Rightarrow> string \<Rightarrow> json list \<Rightarrow> 'h params \<Rightarrow> ('h, 'w) world
     \<Rightarrow> ((error + json list) \<times> 'h params \<times> ('h, 'w) world) option" where
  "requestList_loop axios this url rows ps w =
     (case requestList_body axios this url rows ps w of
        Inl done \<Rightarrow> Some done
      | Inr (rows1, ps1, w1) \<Rightarrow> requestList_loop axios this url rows1 ps1 w1)"

declare requestList_loop.simps [code]

definition requestList ::
  "('h, 'w) transport \<Rightarrow> gitee \<Rightarrow> string \<Rightarrow> 'h params \<Rightarrow> ('h, 'w) world
     \<Rightarrow> ((error + json list) \<times> 'h params \<times> ('h, 'w) world) option" where
  "requestList axios this url ps w = requestList_loop axios this url [] ps w"

subsection \<open>Output shapes\<close>

record repo_output =
  repo_id :: json
  repo_name :: json
  repo_url :: json
  repo_source :: json

record branch_output =
  branch_name :: json
  branch_commit_sha :: json
  branch_source :: json

record commit_output =
  commit_sha :: json
  commit_message :: json
  commit_source :: json

record webhook_output =
  webhook_id :: json
  webhook_url :: json
  webhook_source :: json

record create_webhook_output =
  created_id :: json
  created_source :: json

text \<open>\<open>_.map(rows, f)\<close> where \<open>f\<close> may throw: the first throw ends the map.\<close>

fun map_rows :: "(json \<Rightarrow> error + 'a) \<Rightarrow> json list \<Rightarrow> error + 'a list" where
  "map_rows f [] = Inr []"
| "map_rows f (row # rows) =
     (case f row of
        Inl e \<Rightarrow> Inl e
      | Inr x \<Rightarrow> (case map_rows f rows of Inl e \<Rightarrow> Inl e | Inr xs \<Rightarrow> Inr (x # xs)))"

text \<open>\<open>row.id\<close>, \<open>row.name\<close>: reading a property of \<open>null\<close> or \<open>undefined\<close> throws.\<close>

definition listRepos_row :: "json \<Rightarrow> error + repo_output" where
  "listRepos_row row =
     (if row = JNull \<or> row = JUndefined then Inl TypeError
      else Inr \<lparr> repo_id = js_prop row ''id'', repo_name = js_prop row ''name'',
                 repo_url = js_prop row ''html_url'', repo_source = row \<rparr>)"

definition listBranchs_row :: "json \<Rightarrow> error + branch_output" where
  "listBranchs_row row =
     (if row = JNull \<or> row = JUndefined then Inl TypeError
      else Inr \<lparr> branch_name = js_prop row ''name'',
                 branch_commit_sha = lodash_get row ''commit.sha'',
                 branch_source = row \<rparr>)"

definition listWebhook_row :: "json \<Rightarrow> webhook_output" where
  "listWebhook_row row =
     \<lparr> webhook_id = lodash_get row ''id'', webhook_url = lodash_get row ''url'',
       webhook_source = row \<rparr>"

subsection \<open>Operations\<close>

text \<open>Every operation returns what its body returns or throws, the caller's parameter
  object as the call leaves it, and the world. A list operation returns \<open>None\<close> when its
  pagination never ends.\<close>

text \<open>
  Every operation is declared \<open>async\<close>. A call of an \<open>async\<close> method never throws: it hands
  back a promise, which is fulfilled with what the body returns and rejected with what the
  body throws. \<open>Thrown\<close> is the way a call of a method that is not \<open>async\<close> ends when it throws.
\<close>

datatype 'a completion = Thrown error | Rejected error | Fulfilled 'a

definition async :: "error + 'a \<Rightarrow> 'a completion" where
  "async body = (case body of Inl e \<Rightarrow> Rejected e | Inr v \<Rightarrow> Fulfilled v)"

definition listRepos ::
  "('h, 'w) transport \<Rightarrow> gitee \<Rightarrow> ('h, 'w) world
     \<Rightarrow> ((error + repo_output list) \<times> ('h, 'w) world) option" where
  "listRepos axios this w =
     (case requestList axios this ''/user/repos''
             (lodash_defaults (empty_params\<lparr> affiliation := Some ''owner'' \<rparr>) PARAMS) w of
        None \<Rightarrow> None
      | Some (Inl e, _, w1) \<Rightarrow> Some (Inl e, w1)
      | Some (Inr rows, _, w1) \<Rightarrow> Some (map_rows listRepos_row rows, w1))"

definition listBranchs ::
  "('h, 'w) transport \<Rightarrow> gitee \<Rightarrow> 'h params \<Rightarrow> ('h, 'w) world
     \<Rightarrow> ((error + branch_output list) \<times> 'h params \<times> ('h, 'w) world) option" where
  "listBranchs axios this ps w =
     (case validateListBranchsParams ps of
        Inl e \<Rightarrow> Some (Inl e, ps, w)
      | Inr _ \<Rightarrow>
          (case requestList axios this
                  (''/repos/'' @ template (owner ps) @ ''/'' @ template (repo ps) @ ''/branches'')
                  (lodash_defaults ps PARAMS) w of
             None \<Rightarrow> None
           | Some (Inl e, ps1, w1) \<Rightarrow> Some (Inl e, ps1, w1)
           | Some (Inr rows, ps1, w1) \<Rightarrow> Some (map_rows listBranchs_row rows, ps1, w1)))"

definition getRefCommit ::
  "('h, 'w) transport \<Rightarrow> gitee \<Rightarrow> 'h params \<Rightarrow> ('h, 'w) world
     \<Rightarrow> (error + commit_output) \<times> 'h params \<times> ('h, 'w) world" where
  "getRefCommit axios this ps w =
     (case validateGetRefCommitParams ps of
        Inl e \<Rightarrow> (Inl e, ps, w)
      | Inr _ \<Rightarrow>
          (if lodash_startsWith (lodash_toString (ref ps)) ''refs/tags/'' then
             (let tag = lodash_replace (lodash_toString (ref ps)) ''refs/tags/'' [] in
              case requestV5 axios this
                     (''/repos/'' @ template (owner ps) @ ''/'' @ template (repo ps)
                        @ ''/releases/tags/'' @ tag) ''GET'' empty_params w of
                (Inl e, _, w1) \<Rightarrow> (Inl e, ps, w1)
              | (Inr result, _, w1) \<Rightarrow>
                  (let source = lodash_get_default result ''data'' (JObj []) in
                   (Inr \<lparr> commit_sha = lodash_get source ''target_commitish'',
                          commit_message = lodash_get source ''tag_name'',
                          commit_source = source \<rparr>, ps, w1)))
           else
             (let branch =
                    (if lodash_startsWith (lodash_toString (ref ps)) ''refs/heads/''
                     then lodash_replace (lodash_toString (ref ps)) ''refs/heads/'' []
                     else template (ref ps)) in
              case requestV5 axios this
                     (''/repos/'' @ template (owner ps) @ ''/'' @ template (repo ps)
                        @ ''/branches/'' @ branch) ''GET'' empty_params w of
                (Inl e, _, w1) \<Rightarrow> (Inl e, ps, w1)
              | (Inr result, _, w1) \<Rightarrow>
                  (let source = lodash_get_default result ''data'' (JObj []) in
                   (Inr \<lparr> commit_sha = lodash_get source ''commit.sha'',
                          commit_message = lodash_get source ''commit.commit.message'',
                          commit_source = source \<rparr>, ps, w1)))))"

definition listWebhook ::
  "('h, 'w) transport \<Rightarrow> gitee \<Rightarrow> 'h params \<Rightarrow> ('h, 'w) world
     \<Rightarrow> ((error + webhook_output list) \<times> 'h params \<times> ('h, 'w) world) option" where
  "listWebhook axios this ps w =
     (case validateListWebhookParams ps of
        Inl e \<Rightarrow> Some (Inl e, ps, w)
      | Inr _ \<Rightarrow>
          (case requestList axios this
                  (''/repos/'' @ template (owner ps) @ ''/'' @ template (repo ps) @ ''/hooks'')
                  (lodash_defaults ps PARAMS) w of
             None \<Rightarrow> None
           | Some (Inl e, ps1, w1) \<Rightarrow> Some (Inl e, ps1, w1)
           | Some (Inr rows, ps1, w1) \<Rightarrow> Some (Inr (map listWebhook_row rows), ps1, w1)))"

definition createWebhook ::
  "('h, 'w) transport \<Rightarrow> gitee \<Rightarrow> 'h params \<Rightarrow> ('h, 'w) world
     \<Rightarrow> (error + create_webhook_output) \<times> 'h params \<times> ('h, 'w) world" where
  "createWebhook axios this ps w =
     (case validateCreateWebhookParams ps of
        Inl e \<Rightarrow> (Inl e, ps, w)
      | Inr _ \<Rightarrow>
          (case requestV5 axios this
                  (''/repos/'' @ template (owner ps) @ ''/'' @ template (repo ps) @ ''/hooks'')
                  ''POST'' ps w of
             (Inl e, ps1, w1) \<Rightarrow> (Inl e, ps1, w1)
           | (Inr result, ps1, w1) \<Rightarrow>
               (let source = lodash_get_default result ''data'' (JObj []) in
                (Inr \<lparr> created_id = lodash_get source ''id'', created_source = source \<rparr>,
                 ps1, w1))))"

text \<open>The text of \<open>hook_id\<close> inside a template literal is given by \<open>hook_text\<close>, the type of
  \<open>hook_id\<close> being declared outside the sources.\<close>

definition hook_template :: "('h \<Rightarrow> string) \<Rightarrow> 'h option \<Rightarrow> string" where
  "hook_template hook_text v = (case v of None \<Rightarrow> ''undefined'' | Some h \<Rightarrow> hook_text h)"

definition updateWebhook ::
  "('h \<Rightarrow> string) \<Rightarrow> ('h, 'w) transport \<Rightarrow> gitee \<Rightarrow> 'h params \<Rightarrow> ('h, 'w) world
     \<Rightarrow> (error + unit) \<times> 'h params \<times> ('h, 'w) world" where
  "updateWebhook hook_text axios this ps w =
     (case validateUpdateWebhookParams ps of
        Inl e \<Rightarrow> (Inl e, ps, w)
      | Inr _ \<Rightarrow>
          (let p = omit_owner_repo_hook_id ps in
           case requestV5 axios this
                  (''/repos/'' @ template (owner ps) @ ''/'' @ template (repo ps) @ ''/hooks/''
                     @ hook_template hook_text (hook_id ps)) ''PATCH'' p w of
             (Inl e, _, w1) \<Rightarrow> (Inl e, ps, w1)
           | (Inr _, _, w1) \<Rightarrow> (Inr (), ps, w1)))"

definition getWebhook ::
  "('h \<Rightarrow> string) \<Rightarrow> ('h, 'w) transport \<Rightarrow> gitee \<Rightarrow> 'h params \<Rightarrow> ('h, 'w) world
     \<Rightarrow> (error + webhook_output) \<times> 'h params \<times> ('h, 'w) world" where
  "getWebhook hook_text axios this ps w =
     (case validateGetWebhookParams ps of
        Inl e \<Rightarrow> (Inl e, ps, w)
      | Inr _ \<Rightarrow>
          (case requestV5 axios this
                  (''/repos/'' @ template (owner ps) @ ''/'' @ template (repo ps) @ ''/hooks/''
                     @ hook_template hook_text (hook_id ps)) ''GET'' ps w of
             (Inl e, ps1, w1) \<Rightarrow> (Inl e, ps1, w1)
           | (Inr result, ps1, w1) \<Rightarrow>
               (let source = lodash_get_default result ''data'' (JObj []) in
                (Inr \<lparr> webhook_id = lodash_get result ''id'',
                       webhook_url = lodash_get result ''url'',
                       webhook_source = source \<rparr>, ps1, w1))))"

definition deleteWebhook ::
  "('h \<Rightarrow> string) \<Rightarrow> ('h, 'w) transport \<Rightarrow> gitee \<Rightarrow> 'h params \<Rightarrow> ('h, 'w) world
     \<Rightarrow> (error + unit) \<times> 'h params \<times> ('h, 'w) world" where
  "deleteWebhook hook_text axios this ps w =
     (case validateDeleteWebhookParams ps of
        Inl e \<Rightarrow> (Inl e, ps, w)
      | Inr _ \<Rightarrow>
          (case requestV5 axios this
                  (''/repos/'' @ template (owner ps) @ ''/'' @ template (repo ps) @ ''/hooks/''
                     @ hook_template hook_text (hook_id ps)) ''DELETE'' empty_params w of
             (Inl e, _, w1) \<Rightarrow> (Inl e, ps, w1)
           | (Inr _, _, w1) \<Rightarrow> (Inr (), ps, w1)))"

section \<open>The local git configuration\<close>

text \<open>
  Modelled from the spec: the interface \<open>IInitConfig\<close> (\<open>./types\<close>) is not among the sources;
  it carries the identity and an optional directory. \<open>os.tmpdir()\<close>, \<open>process.cwd()\<close>,
  \<open>path.isAbsolute\<close> and \<open>path.join\<close> belong to the platform and are taken as given. The
  calls to \<open>debug\<close> only write to a log and are left out.
\<close>

record init_config =
  userName :: string
  userEmail :: string
  execDir :: "string option"

record node_env =
  os_tmpdir :: string
  process_cwd :: string
  path_isAbsolute :: "string \<Rightarrow> bool"
  path_join :: "string \<Rightarrow> string \<Rightarrow> string"

text \<open>What is asked of the file system and of the git tool, each request naming the
  directory it works in. A request may fail; the history of requests is kept.\<close>

datatype git_action =
    EnsureDir string
  | GitInit string
  | AddConfig string string string

type_synonym 's tool = "git_action \<Rightarrow> 's \<Rightarrow> (error + unit) \<times> 's"

record 's machine =
  performed :: "git_action list"
  sys :: 's

definition perform :: "'s tool \<Rightarrow> git_action \<Rightarrow> 's machine \<Rightarrow> (error + unit) \<times> 's machine" where
  "perform tool a m =
     (let (r, s) = tool a (sys m) in (r, \<lparr> performed = performed m @ [a], sys = s \<rparr>))"

text \<open>\<open>config.execDir || os.tmpdir()\<close>: the empty string is falsy too.\<close>

definition execDir_or_tmpdir :: "node_env \<Rightarrow> init_config \<Rightarrow> string" where
  "execDir_or_tmpdir env config =
     (case execDir config of
        None \<Rightarrow> os_tmpdir env
      | Some d \<Rightarrow> if d = [] then os_tmpdir env else d)"

definition configExecDir :: "node_env \<Rightarrow> init_config \<Rightarrow> string" where
  "configExecDir env config =
     (let d = execDir_or_tmpdir env config in
      if path_isAbsolute env d then d else path_join env (process_cwd env) d)"

definition initConfig ::
  "'s tool \<Rightarrow> node_env \<Rightarrow> init_config \<Rightarrow> 's machine \<Rightarrow> (error + unit) \<times> 's machine" where
  "initConfig tool env config m =
     (let dir = configExecDir env config in
      case perform tool (EnsureDir dir) m of
        (Inl e, m1) \<Rightarrow> (Inl e, m1)
      | (Inr _, m1) \<Rightarrow>
          (case perform tool (GitInit dir) m1 of
             (Inl e, m2) \<Rightarrow> (Inl e, m2)
           | (Inr _, m2) \<Rightarrow>
               (case perform tool (AddConfig dir ''user.name'' (userName config)) m2 of
                  (Inl e, m3) \<Rightarrow> (Inl e, m3)
                | (Inr _, m3) \<Rightarrow>
                    perform tool (AddConfig dir ''user.email'' (userEmail config)) m3)))"

section \<open>Vocabulary of the statements\<close>

text \<open>The caller's object once \<open>requestV5\<close> has merged the token into it, and the request a
  list fetch then sends.\<close>

abbreviation with_token :: "gitee \<Rightarrow> 'h params \<Rightarrow> 'h params" where
  "with_token this ps \<equiv>
     ps\<lparr> access_token := or_default (access_token ps) (Some (gitee_access_token this)) \<rparr>"

abbreviation list_request :: "gitee \<Rightarrow> string \<Rightarrow> 'h params \<Rightarrow> 'h request" where
  "list_request this url ps \<equiv>
     \<lparr> req_method = ''GET'', req_url = V5 @ url, req_params = with_token this ps \<rparr>"

text \<open>The parameter object after \<open>k\<close> turns of the pagination loop, and the request of turn
  \<open>i\<close> (counted from 0) of a list fetch that was started with \<open>ps\<close>.\<close>

definition after_pages :: "gitee \<Rightarrow> 'h params \<Rightarrow> nat \<Rightarrow> 'h params" where
  "after_pages this ps k =
     ps\<lparr> access_token := or_default (access_token ps) (Some (gitee_access_token this)),
         page := (page_plus_one ^^ k) (page ps) \<rparr>"

definition page_request :: "gitee \<Rightarrow> string \<Rightarrow> 'h params \<Rightarrow> nat \<Rightarrow> 'h request" where
  "page_request this url ps i =
     \<lparr> req_method = ''GET'', req_url = V5 @ url, req_params = after_pages this ps i \<rparr>"

text \<open>The rows that one exchange adds to the accumulator of a list fetch.\<close>

definition page_rows :: "error + json \<Rightarrow> json list" where
  "page_rows r =
     (case r of Inl e \<Rightarrow> [] | Inr result \<Rightarrow> lodash_concat [] (js_prop result ''data''))"

text \<open>A transport that answers with a given sequence of responses, one per request, whatever
  is asked; the state of the network is the number of requests answered so far.\<close>

definition replay :: "(nat \<Rightarrow> error + json) \<Rightarrow> ('h, nat) transport" where
  "replay rs rq k = (rs k, Suc k)"

text \<open>The caller's object of a list call with the defaults and the token merged in.\<close>

definition filled :: "gitee \<Rightarrow> 'h params \<Rightarrow> 'h params" where
  "filled this ps =
     ps\<lparr> per_page := or_default (per_page ps) (Some (Num 100)),
         page := or_default (page ps) (Some (Num 1)),
         sort_key := or_default (sort_key ps) (Some ''updated''),
         access_token := or_default (access_token ps) (Some (gitee_access_token this)) \<rparr>"

text \<open>The number of rows of a response whose body is an array; and a sequence of responses
  that, from response \<open>i\<close> on, gives \<open>m\<close> pages of \<open>pp\<close> rows and then a page of another
  length.\<close>

definition page_len :: "error + json \<Rightarrow> nat option" where
  "page_len r =
     (case r of
        Inl e \<Rightarrow> None
      | Inr result \<Rightarrow> (case js_prop result ''data'' of JArr xs \<Rightarrow> Some (length xs) | _ \<Rightarrow> None))"

definition served :: "(nat \<Rightarrow> error + json) \<Rightarrow> nat \<Rightarrow> nat \<Rightarrow> nat \<Rightarrow> bool" where
  "served rs i pp m =
     ((\<forall>j<m. page_len (rs (i + j)) = Some pp)
      \<and> page_len (rs (i + m)) \<noteq> None \<and> page_len (rs (i + m)) \<noteq> Some pp)"

text \<open>A backend that holds the rows \<open>stored\<close> and serves page \<open>p\<close> of size \<open>n\<close> as the rows
  from \<open>(p - 1) * n\<close> on, at most \<open>n\<close> of them.\<close>

definition paged_backend :: "json list \<Rightarrow> ('h, unit) transport" where
  "paged_backend stored rq u =
     (case (page (req_params rq), per_page (req_params rq)) of
        (Some (Num p), Some (Num n)) \<Rightarrow>
          (Inr (JObj [(''data'', JArr (take (nat n) (drop (nat ((p - 1) * n)) stored)))]), ())
      | _ \<Rightarrow> (Inl (TransportError JNull), ()))"

section \<open>Facts about the helpers\<close>

lemma lodash_replace_prefix:
  "prefix pat s \<Longrightarrow> lodash_replace s pat [] = drop (length pat) s"
  by (cases s) auto

lemma lodash_get_plain:
  "CHR ''.'' \<notin> set k \<Longrightarrow> lodash_get v k = js_prop v k"
  by (cases v) (auto simp: lodash_get_def castPath_def isKey_def)

lemma lodash_get_default_data:
  "lodash_get_default result ''data'' d =
     (if js_prop result ''data'' = JUndefined then d else js_prop result ''data'')"
  by (simp add: lodash_get_default_def lodash_get_plain Let_def)

section \<open>Construction\<close>

text \<open>
  Claim C6. Building the Gitee client from a configuration whose access token is absent
  or the empty string throws at once; from a configuration with a non-empty access token
  it succeeds, and the client holds that token.
\<close>

theorem constructor_access_token:
  "(config_access_token config = None \<or> config_access_token config = Some []
      \<longrightarrow> constructor config = Inl AccessTokenRequired)
   \<and> (\<forall>t. config_access_token config = Some t \<and> t \<noteq> []
      \<longrightarrow> constructor config = Inr \<lparr> gitee_access_token = t \<rparr>)"
  by (auto simp: constructor_def Base_constructor_def lodash_isEmpty_def)

theorem constructor_access_token_witness:
  "constructor \<lparr> config_access_token = None \<rparr> = Inl AccessTokenRequired
   \<and> constructor \<lparr> config_access_token = Some [] \<rparr> = Inl AccessTokenRequired
   \<and> constructor \<lparr> config_access_token = Some ''t0k'' \<rparr> = Inr \<lparr> gitee_access_token = ''t0k'' \<rparr>"
  using constructor_access_token [of "\<lparr> config_access_token = None \<rparr>"]
    constructor_access_token [of "\<lparr> config_access_token = Some [] \<rparr>"]
    constructor_access_token [of "\<lparr> config_access_token = Some ''t0k'' \<rparr>"]
  by simp

section \<open>Facts about the pagination loop\<close>

lemma or_default_simps [simp]:
  "or_default None d = d" "or_default (Some x) d = Some x" "or_default v None = v"
  by (auto simp: or_default_def split: option.splits)

lemma or_default_idem [simp]: "or_default (or_default v d) d = or_default v d"
  by (cases v; cases d) auto

lemma rest_defaults_Nil [simp]: "rest_defaults xs [] = xs"
  by (simp add: rest_defaults_def)

lemma lodash_defaults_token:
  "lodash_defaults ps (empty_params\<lparr> access_token := Some t \<rparr>)
     = ps\<lparr> access_token := or_default (access_token ps) (Some t) \<rparr>"
  by (simp add: lodash_defaults_def empty_params_def)

lemma lodash_defaults_PARAMS:
  "lodash_defaults ps PARAMS
     = ps\<lparr> per_page := or_default (per_page ps) (Some (Num 100)),
           page := or_default (page ps) (Some (Num 1)),
           sort_key := or_default (sort_key ps) (Some ''updated'') \<rparr>"
  by (simp add: lodash_defaults_def empty_params_def PARAMS_def)

lemma lodash_concat_append: "lodash_concat rows v = rows @ lodash_concat [] v"
  by (cases v) auto

lemma requestList_body_Inr:
  assumes "requestList_body axios this url rows ps w = Inr (rows1, ps1, w1)"
  shows "\<exists>result n. axios (list_request this url ps) (net w) = (Inr result, n)
           \<and> rows1 = rows @ page_rows (Inr result)
           \<and> ps1 = (with_token this ps)\<lparr> page := page_plus_one (page ps) \<rparr>
           \<and> w1 = \<lparr> trace = trace w @ [(list_request this url ps, Inr result)], net = n \<rparr>
           \<and> per_page ps = Some (Num (int (lodash_size (js_prop result ''data''))))"
proof -
  obtain r n where ax: "axios (list_request this url ps) (net w) = (r, n)"
    by (cases "axios (list_request this url ps) (net w)")
  have rv: "requestV5 axios this url ''GET'' ps w =
      (r, with_token this ps, \<lparr> trace = trace w @ [(list_request this url ps, r)], net = n \<rparr>)"
    by (simp add: requestV5_def lodash_defaults_token Let_def ax)
  show ?thesis
    using assms lodash_concat_append [of rows]
    by (auto simp: requestList_body_def rv ax page_rows_def destructure_data_def Let_def
          split: sum.splits if_splits)
qed

lemma requestList_body_Inl:
  assumes "requestList_body axios this url rows ps w = Inl (res, ps1, w1)"
  shows "\<exists>r n. axios (list_request this url ps) (net w) = (r, n)
           \<and> w1 = \<lparr> trace = trace w @ [(list_request this url ps, r)], net = n \<rparr>
           \<and> (case res of
                 Inl e \<Rightarrow> ps1 = with_token this ps
               | Inr rows1 \<Rightarrow> rows1 = rows @ page_rows r
                   \<and> ps1 = (with_token this ps)\<lparr> page := page_plus_one (page ps) \<rparr>)"
proof -
  obtain r n where ax: "axios (list_request this url ps) (net w) = (r, n)"
    by (cases "axios (list_request this url ps) (net w)")
  have rv: "requestV5 axios this url ''GET'' ps w =
      (r, with_token this ps, \<lparr> trace = trace w @ [(list_request this url ps, r)], net = n \<rparr>)"
    by (simp add: requestV5_def lodash_defaults_token Let_def ax)
  show ?thesis
    using assms lodash_concat_append [of rows]
    by (auto simp: requestList_body_def rv ax page_rows_def destructure_data_def Let_def
          split: sum.splits if_splits)
qed


lemma after_pages_0: "after_pages this ps 0 = with_token this ps"
  by (simp add: after_pages_def)

lemma after_pages_1:
  "after_pages this ps (Suc 0) = (with_token this ps)\<lparr> page := page_plus_one (page ps) \<rparr>"
  by (simp add: after_pages_def)

lemma after_pages_shift:
  "after_pages this (after_pages this ps (Suc 0)) k = after_pages this ps (Suc k)"
  by (simp add: after_pages_def funpow_swap1)

lemma page_request_0: "page_request this url ps 0 = list_request this url ps"
  by (simp add: page_request_def after_pages_def)

lemma page_request_shift:
  "page_request this url (after_pages this ps (Suc 0)) i = page_request this url ps (Suc i)"
  by (simp add: page_request_def after_pages_shift)

lemma requestList_loop_sound:
  assumes "requestList_loop axios this url rows ps w = Some y"
  shows "\<exists>new. new \<noteq> [] \<and> trace (snd (snd y)) = trace w @ new
           \<and> map fst new = map (page_request this url ps) [0..<length new]
           \<and> fst (snd y) = after_pages this ps
                 (case fst y of Inl _ \<Rightarrow> length new - 1 | Inr _ \<Rightarrow> length new)
           \<and> (\<forall>rows'. fst y = Inr rows' \<longrightarrow> rows' = rows @ concat (map (page_rows \<circ> snd) new))"
proof -
  let ?P = "\<lambda>(axios :: ('h, 'w) transport) this url rows (ps :: 'h params) (w :: ('h, 'w) world)
      (y :: (error + json list) \<times> 'h params \<times> ('h, 'w) world).
      \<exists>new. new \<noteq> [] \<and> trace (snd (snd y)) = trace w @ new
           \<and> map fst new = map (page_request this url ps) [0..<length new]
           \<and> fst (snd y) = after_pages this ps
                 (case fst y of Inl _ \<Rightarrow> length new - 1 | Inr _ \<Rightarrow> length new)
           \<and> (\<forall>rows'. fst y = Inr rows' \<longrightarrow> rows' = rows @ concat (map (page_rows \<circ> snd) new))"
  show ?thesis
  proof (rule requestList_loop.raw_induct [where P = ?P, OF _ assms])
  fix loop :: "('h, 'w) transport \<Rightarrow> gitee \<Rightarrow> string \<Rightarrow> json list \<Rightarrow> 'h params \<Rightarrow> ('h, 'w) world
     \<Rightarrow> ((error + json list) \<times> 'h params \<times> ('h, 'w) world) option"
    and axios :: "('h, 'w) transport" and this url rows and ps :: "'h params"
    and w :: "('h, 'w) world" and y
  assume 1: "\<And>axios this url rows ps w y. loop axios this url rows ps w = Some y
      \<Longrightarrow> ?P axios this url rows ps w y"
    "(case requestList_body axios this url rows ps w of Inl fin \<Rightarrow> Some fin
      | Inr (rows1, ps1, w1) \<Rightarrow> loop axios this url rows1 ps1 w1) = Some y"
  show "?P axios this url rows ps w y"
  proof (cases "requestList_body axios this url rows ps w")
    case (Inl fin)
    then have y: "y = fin" using 1(2) by simp
    obtain res ps1 w1 where d: "fin = (res, ps1, w1)" by (cases fin) auto
    from requestList_body_Inl [OF Inl [unfolded d]]
    obtain r n where
      w1: "w1 = \<lparr> trace = trace w @ [(list_request this url ps, r)], net = n \<rparr>"
      and res: "case res of Inl e \<Rightarrow> ps1 = with_token this ps
               | Inr rows1 \<Rightarrow> rows1 = rows @ page_rows r
                   \<and> ps1 = (with_token this ps)\<lparr> page := page_plus_one (page ps) \<rparr>"
      by blast
    let ?new = "[(page_request this url ps 0, r)]"
    have a: "trace (snd (snd y)) = trace w @ ?new"
      by (simp add: y d w1 page_request_0)
    have b: "map fst ?new = map (page_request this url ps) [0..<length ?new]"
      by simp
    have c: "fst (snd y) = after_pages this ps
               (case fst y of Inl _ \<Rightarrow> length ?new - 1 | Inr _ \<Rightarrow> length ?new)"
      using res by (cases res) (simp_all add: y d after_pages_0 after_pages_1)
    have e: "\<forall>rows'. fst y = Inr rows' \<longrightarrow> rows' = rows @ concat (map (page_rows \<circ> snd) ?new)"
      using res by (cases res) (simp_all add: y d)
    from a b c e show ?thesis by blast
  next
    case (Inr cont)
    obtain rows1 ps1 w1 where c: "cont = (rows1, ps1, w1)" by (cases cont) auto
    from requestList_body_Inr [OF Inr [unfolded c]]
    obtain result n where
      rows1: "rows1 = rows @ page_rows (Inr result)"
      and ps1: "ps1 = after_pages this ps (Suc 0)"
      and w1: "w1 = \<lparr> trace = trace w @ [(page_request this url ps 0, Inr result)], net = n \<rparr>"
      unfolding after_pages_1 page_request_0 by blast
    have "loop axios this url rows1 ps1 w1 = Some y"
      using 1(2) Inr c by simp
    from 1(1) [OF this] obtain new1 where
      n1: "new1 \<noteq> []" and tr: "trace (snd (snd y)) = trace w1 @ new1"
      and rq1: "map fst new1 = map (page_request this url ps1) [0..<length new1]"
      and fin: "fst (snd y) = after_pages this ps1
                 (case fst y of Inl _ \<Rightarrow> length new1 - 1 | Inr _ \<Rightarrow> length new1)"
      and rws: "\<forall>rows'. fst y = Inr rows' \<longrightarrow> rows' = rows1 @ concat (map (page_rows \<circ> snd) new1)"
      by blast
    let ?new = "(page_request this url ps 0, Inr result) # new1"
    have a: "trace (snd (snd y)) = trace w @ ?new"
      by (simp add: tr w1)
    have b: "map fst ?new = map (page_request this url ps) [0..<length ?new]"
      by (simp add: rq1 ps1 page_request_shift map_upt_Suc del: upt_Suc)
    have k: "Suc (length new1 - 1) = length new1" using n1 by (cases new1) auto
    have c': "fst (snd y) = after_pages this ps
               (case fst y of Inl _ \<Rightarrow> length ?new - 1 | Inr _ \<Rightarrow> length ?new)"
      using k by (cases "fst y") (simp_all add: fin ps1 after_pages_shift)
    have e: "\<forall>rows'. fst y = Inr rows' \<longrightarrow> rows' = rows @ concat (map (page_rows \<circ> snd) ?new)"
      using rws by (simp add: rows1)
    have "?new \<noteq> []" by simp
    with a b c' e show ?thesis by blast
  qed
qed
qed


lemma requestList_body_page:
  assumes "axios (page_request this url ps 0) (net w) = (Inr result, n)"
    and "js_prop result ''data'' = JArr xs"
  shows "requestList_body axios this url rows ps w =
     (if Some (Num (int (length xs))) = per_page ps
      then Inr (rows @ xs, after_pages this ps (Suc 0),
             \<lparr> trace = trace w @ [(page_request this url ps 0, Inr result)], net = n \<rparr>)
      else Inl (Inr (rows @ xs), after_pages this ps (Suc 0),
             \<lparr> trace = trace w @ [(page_request this url ps 0, Inr result)], net = n \<rparr>))"
proof -
  have ax: "axios (list_request this url ps) (net w) = (Inr result, n)"
    using assms(1) by (simp add: page_request_0)
  have rv: "requestV5 axios this url ''GET'' ps w =
      (Inr result, with_token this ps,
       \<lparr> trace = trace w @ [(list_request this url ps, Inr result)], net = n \<rparr>)"
    by (simp add: requestV5_def lodash_defaults_token Let_def ax)
  have nn: "result \<noteq> JNull" "result \<noteq> JUndefined"
    using assms(2) by auto
  show ?thesis
    by (simp add: requestList_body_def rv destructure_data_def nn assms(2) Let_def
          after_pages_1 page_request_0)
qed

lemma per_page_after_pages [simp]: "per_page (after_pages this ps k) = per_page ps"
  by (simp add: after_pages_def)

lemma requestList_loop_pages:
  fixes st :: "nat \<Rightarrow> 'w" and res :: "nat \<Rightarrow> json" and pg :: "nat \<Rightarrow> json list"
  assumes "per_page ps = Some (Num (int pp))"
    and "net w = st 0"
    and "\<And>j. j \<le> m \<Longrightarrow> axios (page_request this url ps j) (st j) = (Inr (res j), st (Suc j))"
    and "\<And>j. j \<le> m \<Longrightarrow> js_prop (res j) ''data'' = JArr (pg j)"
    and "\<And>j. j < m \<Longrightarrow> length (pg j) = pp"
    and "length (pg m) \<noteq> pp"
  shows "requestList_loop axios this url rows ps w =
     Some (Inr (rows @ concat (map pg [0..<Suc m])), after_pages this ps (Suc m),
       \<lparr> trace = trace w @ map (\<lambda>j. (page_request this url ps j, Inr (res j))) [0..<Suc m],
         net = st (Suc m) \<rparr>)"
  using assms
proof (induct m arbitrary: rows ps w st res pg)
  case 0
  have b: "requestList_body axios this url rows ps w =
      Inl (Inr (rows @ pg 0), after_pages this ps (Suc 0),
        \<lparr> trace = trace w @ [(page_request this url ps 0, Inr (res 0))], net = st (Suc 0) \<rparr>)"
    using requestList_body_page [of axios this url ps w "res 0" "st (Suc 0)" "pg 0" rows]
      "0.prems"(3) [of 0] "0.prems"(4) [of 0] "0.prems"(1,2,6)
    by simp
  show ?case
    by (subst requestList_loop.simps) (simp add: b)
next
  case (Suc m)
  let ?ps1 = "after_pages this ps (Suc 0)"
  let ?w1 = "\<lparr> trace = trace w @ [(page_request this url ps 0, Inr (res 0))], net = st (Suc 0) \<rparr>"
  have b: "requestList_body axios this url rows ps w = Inr (rows @ pg 0, ?ps1, ?w1)"
    using requestList_body_page [of axios this url ps w "res 0" "st (Suc 0)" "pg 0" rows]
      Suc.prems(3) [of 0] Suc.prems(4) [of 0] Suc.prems(5) [of 0] Suc.prems(1,2)
    by simp
  have ih: "requestList_loop axios this url (rows @ pg 0) ?ps1 ?w1 =
     Some (Inr ((rows @ pg 0) @ concat (map (\<lambda>j. pg (Suc j)) [0..<Suc m])),
       after_pages this ?ps1 (Suc m),
       \<lparr> trace = trace ?w1 @ map (\<lambda>j. (page_request this url ?ps1 j, Inr (res (Suc j)))) [0..<Suc m],
         net = st (Suc (Suc m)) \<rparr>)"
  proof (rule Suc.hyps [of ?ps1 ?w1 "\<lambda>j. st (Suc j)" "\<lambda>j. res (Suc j)" "\<lambda>j. pg (Suc j)"])
    show "per_page ?ps1 = Some (Num (int pp))" using Suc.prems(1) by simp
    show "net ?w1 = st (Suc 0)" by simp
    show "axios (page_request this url ?ps1 j) (st (Suc j)) = (Inr (res (Suc j)), st (Suc (Suc j)))"
      if "j \<le> m" for j
      using Suc.prems(3) [of "Suc j"] that by (simp add: page_request_shift)
    show "js_prop (res (Suc j)) ''data'' = JArr (pg (Suc j))" if "j \<le> m" for j
      using Suc.prems(4) [of "Suc j"] that by simp
    show "length (pg (Suc j)) = pp" if "j < m" for j
      using Suc.prems(5) [of "Suc j"] that by simp
    show "length (pg (Suc m)) \<noteq> pp" using Suc.prems(6) .
  qed
  have m1: "map pg [0..<Suc (Suc m)] = pg 0 # map (\<lambda>j. pg (Suc j)) [0..<Suc m]"
    by (rule map_upt_Suc)
  have m2: "map (\<lambda>j. (page_request this url ps j, Inr (res j))) [0..<Suc (Suc m)] =
      (page_request this url ps 0, Inr (res 0))
        # map (\<lambda>j. (page_request this url ?ps1 j, Inr (res (Suc j)))) [0..<Suc m]"
    by (subst map_upt_Suc) (simp add: page_request_shift)
  show ?case
    apply (subst requestList_loop.simps)
    apply (simp only: b sum.case prod.case ih m1 m2 after_pages_shift)
    apply simp
    done
qed

lemma requestList_loop_terminates:
  assumes "per_page ps = Some (Num (int pp))"
    and "rs k = Inr result" and "js_prop result ''data'' = JArr pg" and "length pg \<noteq> pp"
    and "net w \<le> k"
  shows "\<exists>y. requestList_loop (replay rs) this url rows ps w = Some y"
  using assms(1,5)
proof (induct "k - net w" arbitrary: rows ps w)
  case 0
  then have nk: "net w = k" by simp
  have "replay rs (page_request this url ps 0) (net w) = (Inr result, Suc k)"
    by (simp add: replay_def nk assms(2))
  from requestList_body_page [of "replay rs" this url ps w result "Suc k" pg rows, OF this assms(3)]
  have "requestList_body (replay rs) this url rows ps w =
      Inl (Inr (rows @ pg), after_pages this ps (Suc 0),
        \<lparr> trace = trace w @ [(page_request this url ps 0, Inr result)], net = Suc k \<rparr>)"
    using assms(4) "0.prems"(1) by simp
  then show ?case
    by (subst requestList_loop.simps) simp
next
  case (Suc d)
  show ?case
  proof (cases "requestList_body (replay rs) this url rows ps w")
    case (Inl fin)
    have "requestList_loop (replay rs) this url rows ps w = Some fin"
      by (subst requestList_loop.simps) (simp add: Inl)
    then show ?thesis by blast
  next
    case (Inr cont)
    obtain rows1 ps1 w1 where c: "cont = (rows1, ps1, w1)" by (cases cont) auto
    from requestList_body_Inr [OF Inr [unfolded c]]
    obtain r n where ax: "replay rs (list_request this url ps) (net w) = (Inr r, n)"
      and ps1: "ps1 = after_pages this ps (Suc 0)"
      and w1: "w1 = \<lparr> trace = trace w @ [(list_request this url ps, Inr r)], net = n \<rparr>"
      unfolding after_pages_1 by blast
    have n: "n = Suc (net w)" using ax by (simp add: replay_def)
    have "d = k - net w1" using Suc.hyps(2) by (simp add: w1 n)
    moreover have "per_page ps1 = Some (Num (int pp))" using Suc.prems(1) by (simp add: ps1)
    moreover have "net w1 \<le> k" using Suc.hyps(2) by (simp add: w1 n)
    ultimately have "\<exists>y. requestList_loop (replay rs) this url rows1 ps1 w1 = Some y"
      by (rule Suc.hyps(1))
    then show ?thesis
      by (subst requestList_loop.simps) (simp add: Inr c)
  qed
qed

lemma funpow_page_plus_one:
  "(page_plus_one ^^ j) (Some (Num p)) = Some (Num (p + int j))"
  by (induct j) (simp_all add: page_plus_one_def)

lemma ceiling_div_100:
  assumes "\<not> 100 dvd (t::nat)"
  shows "nat \<lceil>real t / 100\<rceil> = t div 100 + 1"
proof -
  have m: "0 < t mod 100" "t mod 100 < 100" using assms by (auto simp: dvd_eq_mod_eq_0)
  have t: "real t = 100 * real (t div 100) + real (t mod 100)"
    by (metis mult_div_mod_eq of_nat_add of_nat_mult of_nat_numeral)
  have "\<lceil>real t / 100\<rceil> = int (t div 100 + 1)"
  proof (rule ceiling_unique)
    show "real_of_int (int (t div 100 + 1)) - 1 < real t / 100"
      using m t by simp
    show "real t / 100 \<le> real_of_int (int (t div 100 + 1))"
      using m t by simp
  qed
  then show ?thesis by simp
qed

lemma concat_chunks:
  "concat (map (\<lambda>j. take n (drop (j * n) xs)) [0..<k]) = take (k * n) xs"
proof (induct k)
  case 0
  then show ?case by simp
next
  case (Suc k)
  have "take (k * n) xs @ take n (drop (k * n) xs) = take (k * n + n) xs"
    by (simp add: take_add)
  then show ?case using Suc by (simp add: add.commute)
qed

lemma paged_backend_requests:
  fixes ps :: "'h params" and w :: "('h, unit) world"
  assumes "per_page ps = Some (Num 100)" and "page ps = Some (Num 1)"
  shows "requestList (paged_backend stored) this url ps w =
     Some (Inr stored, after_pages this ps (Suc (length stored div 100)),
       \<lparr> trace = trace w @ map (\<lambda>j. (page_request this url ps j,
            Inr (JObj [(''data'', JArr (take 100 (drop (j * 100) stored)))])))
            [0..<Suc (length stored div 100)], net = () \<rparr>)"
proof -
  let ?m = "length stored div 100"
  let ?pg = "\<lambda>j. take 100 (drop (j * 100) stored)"
  let ?res = "\<lambda>j. JObj [(''data'', JArr (?pg j))]"
  have pp: "per_page ps = Some (Num (int 100))" using assms(1) by simp
  have ax: "paged_backend stored (page_request this url ps j) () = (Inr (?res j), ())" for j
    by (simp add: paged_backend_def page_request_def after_pages_def assms
          funpow_page_plus_one nat_mult_distrib)
  have full: "length (?pg j) = 100" if "j < ?m" for j
    using that by (simp; arith)
  have short: "length (?pg ?m) \<noteq> 100"
    by (simp; arith)
  have all: "concat (map ?pg [0..<Suc ?m]) = stored"
    by (simp only: concat_chunks) simp
  have "requestList_loop (paged_backend stored) this url [] ps w =
     Some (Inr ([] @ concat (map ?pg [0..<Suc ?m])), after_pages this ps (Suc ?m),
       \<lparr> trace = trace w @ map (\<lambda>j. (page_request this url ps j, Inr (?res j))) [0..<Suc ?m],
         net = () \<rparr>)"
    by (rule requestList_loop_pages [where st = "\<lambda>_. ()" and pp = 100, OF pp])
       (simp_all add: ax full short)
  then show ?thesis
    by (simp only: requestList_def all append_Nil)
qed

section \<open>Pagination\<close>

text \<open>
  Claim C8. The pagination loop of \<open>requestList\<close> ends for every sequence of responses in
  which some page holds fewer rows than \<open>per_page\<close> (100): whatever the responses before it
  are, the fetch returns a result (rows, or the error that was thrown).
\<close>

theorem requestList_terminates:
  assumes "per_page ps = Some (Num 100)"
    and "net w \<le> k" and "rs k = Inr result"
    and "js_prop result ''data'' = JArr pg" and "length pg < 100"
  shows "\<exists>y. requestList (replay rs) this url ps w = Some y"
  unfolding requestList_def
  by (rule requestList_loop_terminates [where pp = 100 and k = k and result = result and pg = pg])
     (use assms in simp_all)

theorem requestList_terminates_witness:
  "\<exists>y. requestList
     (replay (\<lambda>i. Inr (JObj [(''data'', JArr (replicate (100 - 100 * i) (JNum 1)))])))
     \<lparr> gitee_access_token = ''t0k'' \<rparr> ''/user/repos'' (PARAMS :: unit params)
     \<lparr> trace = [], net = 0 \<rparr> = Some y"
  by (rule requestList_terminates [where k = 1 and pg = "[]"
        and result = "JObj [(''data'', JArr [])]"]) (simp_all add: PARAMS_def)

text \<open>
  Claim C1. A list fetch with page size 100, started at page 1 against a backend that
  holds \<open>total\<close> rows, returns all the rows; it sends \<open>ceil(total / 100)\<close> requests when
  \<open>total\<close> is not a multiple of 100, and \<open>total / 100 + 1\<close> requests when it is (also when
  \<open>total = 0\<close>), the last of them answered by an empty page.
\<close>

theorem requestList_request_count:
  fixes ps :: "'h params" and w :: "('h, unit) world"
  assumes "per_page ps = Some (Num 100)" and "page ps = Some (Num 1)"
  shows "\<exists>ps' w'. requestList (paged_backend stored) this url ps w = Some (Inr stored, ps', w')
     \<and> (\<not> 100 dvd length stored \<longrightarrow>
           length (trace w') = length (trace w) + nat \<lceil>real (length stored) / 100\<rceil>)
     \<and> (100 dvd length stored \<longrightarrow>
           length (trace w') = length (trace w) + (length stored div 100 + 1)
           \<and> snd (last (trace w')) = Inr (JObj [(''data'', JArr [])]))"
proof -
  let ?m = "length stored div 100"
  let ?f = "\<lambda>j. (page_request this url ps j,
            Inr (JObj [(''data'', JArr (take 100 (drop (j * 100) stored)))]) :: error + json)"
  let ?w' = "\<lparr> trace = trace w @ map ?f [0..<Suc ?m], net = () \<rparr>"
  have run: "requestList (paged_backend stored) this url ps w =
      Some (Inr stored, after_pages this ps (Suc ?m), ?w')"
    using assms by (rule paged_backend_requests)
  have len: "length (trace ?w') = length (trace w) + (?m + 1)"
    by simp
  have lst: "snd (last (trace ?w')) = Inr (JObj [(''data'', JArr (take 100 (drop (?m * 100) stored)))])"
    by simp
  have emp: "take 100 (drop (?m * 100) stored) = []" if "100 dvd length stored"
    using that by (simp add: dvd_div_mult_self)
  have c1: "\<not> 100 dvd length stored \<longrightarrow>
           length (trace ?w') = length (trace w) + nat \<lceil>real (length stored) / 100\<rceil>"
    using len ceiling_div_100 [of "length stored"] by (simp del: upt_Suc)
  have c2: "100 dvd length stored \<longrightarrow>
           length (trace ?w') = length (trace w) + (?m + 1)
           \<and> snd (last (trace ?w')) = Inr (JObj [(''data'', JArr [])])"
    using len lst emp by (simp del: upt_Suc)
  from run c1 c2 show ?thesis by blast
qed


theorem requestList_request_count_witness:
  "(\<exists>ps' w'. requestList (paged_backend (replicate 200 (JNum 1))) \<lparr> gitee_access_token = ''t0k'' \<rparr>
        ''/user/repos'' (PARAMS :: unit params) \<lparr> trace = [], net = () \<rparr>
      = Some (Inr (replicate 200 (JNum 1)), ps', w')
      \<and> length (trace w') = 3 \<and> snd (last (trace w')) = Inr (JObj [(''data'', JArr [])]))
   \<and> (\<exists>ps' w'. requestList (paged_backend (replicate 150 (JNum 1))) \<lparr> gitee_access_token = ''t0k'' \<rparr>
        ''/user/repos'' (PARAMS :: unit params) \<lparr> trace = [], net = () \<rparr>
      = Some (Inr (replicate 150 (JNum 1)), ps', w')
      \<and> length (trace w') = 2)"
  using requestList_request_count [of "PARAMS :: unit params" "replicate 200 (JNum 1)"
      "\<lparr> gitee_access_token = ''t0k'' \<rparr>" "''/user/repos''" "\<lparr> trace = [], net = () \<rparr>"]
    requestList_request_count [of "PARAMS :: unit params" "replicate 150 (JNum 1)"
      "\<lparr> gitee_access_token = ''t0k'' \<rparr>" "''/user/repos''" "\<lparr> trace = [], net = () \<rparr>"]
  by (simp add: PARAMS_def numeral_2_eq_2 numeral_3_eq_3)

lemma map_rows_listBranchs_row:
  assumes "\<forall>row \<in> set rows. row \<noteq> JNull \<and> row \<noteq> JUndefined"
  shows "\<exists>outs. map_rows listBranchs_row rows = Inr outs \<and> map branch_source outs = rows"
  using assms by (induct rows) (auto simp: listBranchs_row_def)

lemma validate_owner_repo:
  "owner ps = Some ow \<Longrightarrow> repo ps = Some rp \<Longrightarrow> validateListBranchsParams ps = Inr ()"
  by (simp add: validateListBranchsParams_def)

lemma page_of_page_request:
  "page ps = Some (Num p) \<Longrightarrow> page (req_params (page_request this url ps j)) = Some (Num (p + int j))"
  by (simp add: page_request_def after_pages_def funpow_page_plus_one)

text \<open>
  Claim C7. For an owner and a repository and no pagination key of the caller's,
  \<open>listBranchs\<close> over the pages the backend returns (full pages, then the first page that
  is not full) returns one output per row: its length is the sum of the lengths of the
  pages fetched, the rows are those of the pages in the order fetched, and the pages
  asked for are 1, 2, 3, ... in this order, one request each.
\<close>

theorem listBranchs_concatenates_pages:
  fixes ps :: "'h params" and w :: "('h, nat) world"
  assumes "owner ps = Some ow" and "repo ps = Some rp"
    and "page ps = None" and "per_page ps = None"
    and "\<And>j. j \<le> m \<Longrightarrow> rs (net w + j) = Inr (res j)"
    and "\<And>j. j \<le> m \<Longrightarrow> js_prop (res j) ''data'' = JArr (pg j)"
    and "\<And>j. j < m \<Longrightarrow> length (pg j) = 100"
    and "length (pg m) \<noteq> 100"
    and "\<And>j row. j \<le> m \<Longrightarrow> row \<in> set (pg j) \<Longrightarrow> row \<noteq> JNull \<and> row \<noteq> JUndefined"
  shows "\<exists>outs ps' w'. listBranchs (replay rs) this ps w = Some (Inr outs, ps', w')
     \<and> length outs = sum_list (map (\<lambda>j. length (pg j)) [0..<Suc m])
     \<and> map branch_source outs = concat (map pg [0..<Suc m])
     \<and> map (\<lambda>x. page (req_params (fst x))) (drop (length (trace w)) (trace w'))
          = map (\<lambda>j. Some (Num (1 + int j))) [0..<Suc m]"
proof -
  let ?url = "''/repos/'' @ template (owner ps) @ ''/'' @ template (repo ps) @ ''/branches''"
  let ?ps0 = "lodash_defaults ps PARAMS"
  let ?rows = "concat (map pg [0..<Suc m])"
  let ?new = "map (\<lambda>j. (page_request this ?url ?ps0 j, Inr (res j) :: error + json)) [0..<Suc m]"
  let ?w' = "\<lparr> trace = trace w @ ?new, net = net w + Suc m \<rparr>"
  have pp: "per_page ?ps0 = Some (Num (int 100))"
    using assms(4) by (simp add: lodash_defaults_PARAMS)
  have p1: "page ?ps0 = Some (Num 1)"
    using assms(3) by (simp add: lodash_defaults_PARAMS)
  have "requestList_loop (replay rs) this ?url [] ?ps0 w =
     Some (Inr ([] @ ?rows), after_pages this ?ps0 (Suc m), ?w')"
    by (rule requestList_loop_pages [where st = "\<lambda>j. net w + j" and pp = 100, OF pp])
       (simp_all add: replay_def assms(5,6,7,8))
  then have run: "requestList (replay rs) this ?url ?ps0 w =
     Some (Inr ?rows, after_pages this ?ps0 (Suc m), ?w')"
    by (simp only: requestList_def append_Nil)
  have "\<forall>row \<in> set ?rows. row \<noteq> JNull \<and> row \<noteq> JUndefined"
    using assms(9) by (auto simp del: upt_Suc simp: less_Suc_eq_le)
  from map_rows_listBranchs_row [OF this]
  obtain outs where outs: "map_rows listBranchs_row ?rows = Inr outs"
    and src: "map branch_source outs = ?rows"
    by blast
  have res: "listBranchs (replay rs) this ps w = Some (Inr outs, after_pages this ?ps0 (Suc m), ?w')"
    by (simp only: listBranchs_def validate_owner_repo [OF assms(1,2)] run outs
          sum.case option.case prod.case)
  have len: "length outs = sum_list (map (\<lambda>j. length (pg j)) [0..<Suc m])"
  proof -
    have "length outs = length (map branch_source outs)" by simp
    also have "\<dots> = length ?rows" by (simp only: src)
    also have "\<dots> = sum_list (map (\<lambda>j. length (pg j)) [0..<Suc m])"
      by (simp only: length_concat map_map comp_def)
    finally show ?thesis .
  qed
  have pgs: "map (\<lambda>x. page (req_params (fst x))) (drop (length (trace w)) (trace ?w'))
          = map (\<lambda>j. Some (Num (1 + int j))) [0..<Suc m]"
    by (simp add: page_of_page_request [OF p1] comp_def del: upt_Suc)
  from res len src pgs show ?thesis by blast
qed


theorem listBranchs_concatenates_pages_witness:
  "\<exists>outs ps' w'.
     listBranchs
       (replay (\<lambda>i. Inr (JObj [(''data'', JArr (if i = 0
          then replicate 100 (JObj [(''name'', JStr ''main'')])
          else [JObj [(''name'', JStr ''dev'')]]))])))
       \<lparr> gitee_access_token = ''t0k'' \<rparr>
       (empty_params\<lparr> owner := Some ''acme'', repo := Some ''site'' \<rparr> :: unit params)
       \<lparr> trace = [], net = 0 \<rparr> = Some (Inr outs, ps', w')
     \<and> length outs = 101
     \<and> map branch_source outs
          = replicate 100 (JObj [(''name'', JStr ''main'')]) @ [JObj [(''name'', JStr ''dev'')]]
     \<and> map (\<lambda>x. page (req_params (fst x))) (trace w') = [Some (Num 1), Some (Num 2)]"
proof -
  let ?pg = "\<lambda>i::nat. if i = 0 then replicate 100 (JObj [(''name'', JStr ''main'')])
          else [JObj [(''name'', JStr ''dev'')]]"
  let ?ps = "empty_params\<lparr> owner := Some ''acme'', repo := Some ''site'' \<rparr> :: unit params"
  have rows: "row \<noteq> JNull \<and> row \<noteq> JUndefined" if "j \<le> 1" and "row \<in> set (?pg j)" for j row
    using that by (auto split: if_splits)
  show ?thesis
    using listBranchs_concatenates_pages [where ps = ?ps and ow = "''acme''" and rp = "''site''"
        and m = 1 and rs = "\<lambda>i. Inr (JObj [(''data'', JArr (?pg i))])"
        and w = "\<lparr> trace = [], net = 0 \<rparr>"
        and res = "\<lambda>i. JObj [(''data'', JArr (?pg i))]" and pg = ?pg
        and this = "\<lparr> gitee_access_token = ''t0k'' \<rparr>", OF _ _ _ _ _ _ _ _ rows]
    by (simp add: empty_params_def)
qed

section \<open>Resolving a ref\<close>

lemma lodash_get_commit_sha:
  "lodash_get v ''commit.sha'' =
     (if has_key v ''commit.sha'' then js_prop v ''commit.sha''
      else js_prop (js_prop v ''commit'') ''sha'')"
  by (cases v) (auto simp: lodash_get_def castPath_def isKey_def)

lemma lodash_get_whole_path_first:
  "lodash_get (JObj [(''commit.sha'', JStr ''direct''), (''commit'', JObj [(''sha'', JStr ''nested'')])])
     ''commit.sha'' = JStr ''direct''"
  by (simp add: lodash_get_commit_sha)

lemma lodash_get_commit_commit_message:
  "lodash_get v ''commit.commit.message'' =
     (if has_key v ''commit.commit.message'' then js_prop v ''commit.commit.message''
      else js_prop (js_prop (js_prop v ''commit'') ''commit'') ''message'')"
  by (cases v) (auto simp: lodash_get_def castPath_def isKey_def)

lemma validate_owner_repo_ref:
  "owner ps = Some ow \<Longrightarrow> repo ps = Some rp \<Longrightarrow> ref ps = Some rf
     \<Longrightarrow> validateGetRefCommitParams ps = Inr ()"
  by (simp add: validateGetRefCommitParams_def)

text \<open>
  Claim C2. \<open>getRefCommit\<close> on an owner, a repository and a ref sends exactly one request. A
  ref that begins with \<open>refs/tags/\<close> goes to the releases/tags endpoint under the ref
  without that prefix, and the result has the body's \<open>target_commitish\<close> as sha and its
  \<open>tag_name\<close> as message. Any other ref goes to the branches endpoint, under the ref without
  a leading \<open>refs/heads/\<close> if it has one and under the ref as it is otherwise, and the
  result has the sha of the branch's head commit (\<open>commit.sha\<close> of the body) and that
  commit's message (\<open>commit.commit.message\<close>). Should a body have a property whose name is
  the whole dotted path, lodash reads that property in place of the nested one.
\<close>

theorem getRefCommit_resolves_ref:
  assumes "owner ps = Some ow" and "repo ps = Some rp" and "ref ps = Some rf"
  shows "getRefCommit axios this ps w =
     (let tagged = prefix ''refs/tags/'' rf;
          name = (if tagged then drop (length ''refs/tags/'') rf
                  else if prefix ''refs/heads/'' rf then drop (length ''refs/heads/'') rf
                  else rf);
          rq = \<lparr> req_method = ''GET'',
                 req_url = ''https://gitee.com/api/v5/repos/'' @ ow @ ''/'' @ rp
                    @ (if tagged then ''/releases/tags/'' else ''/branches/'') @ name,
                 req_params = empty_params\<lparr> access_token := Some (gitee_access_token this) \<rparr> \<rparr>;
          resp = fst (axios rq (net w));
          w' = \<lparr> trace = trace w @ [(rq, resp)], net = snd (axios rq (net w)) \<rparr>
      in (case resp of
            Inl e \<Rightarrow> Inl e
          | Inr result \<Rightarrow>
              (let body = js_prop result ''data'' in
               Inr \<lparr> commit_sha =
                       (if tagged then js_prop body ''target_commitish''
                        else if has_key body ''commit.sha'' then js_prop body ''commit.sha''
                        else js_prop (js_prop body ''commit'') ''sha''),
                     commit_message =
                       (if tagged then js_prop body ''tag_name''
                        else if has_key body ''commit.commit.message''
                        then js_prop body ''commit.commit.message''
                        else js_prop (js_prop (js_prop body ''commit'') ''commit'') ''message''),
                     commit_source = (if body = JUndefined then JObj [] else body) \<rparr>),
          ps, w'))"
proof -
  have tok: "lodash_defaults empty_params (empty_params\<lparr> access_token := Some t \<rparr>)
      = (empty_params\<lparr> access_token := Some t \<rparr> :: 'a params)" for t
    by (simp add: lodash_defaults_def empty_params_def)
  have rv: "requestV5 axios this path ''GET'' empty_params w =
      (fst (axios \<lparr> req_method = ''GET'', req_url = V5 @ path,
              req_params = empty_params\<lparr> access_token := Some (gitee_access_token this) \<rparr> \<rparr> (net w)),
       empty_params\<lparr> access_token := Some (gitee_access_token this) \<rparr>,
       \<lparr> trace = trace w @ [(\<lparr> req_method = ''GET'', req_url = V5 @ path,
              req_params = empty_params\<lparr> access_token := Some (gitee_access_token this) \<rparr> \<rparr>,
            fst (axios \<lparr> req_method = ''GET'', req_url = V5 @ path,
              req_params = empty_params\<lparr> access_token := Some (gitee_access_token this) \<rparr> \<rparr> (net w)))],
         net = snd (axios \<lparr> req_method = ''GET'', req_url = V5 @ path,
              req_params = empty_params\<lparr> access_token := Some (gitee_access_token this) \<rparr> \<rparr> (net w)) \<rparr>)"
    for path
    by (simp add: requestV5_def tok Let_def split: prod.splits)
  have plain: "lodash_get v ''target_commitish'' = js_prop v ''target_commitish''"
    "lodash_get v ''tag_name'' = js_prop v ''tag_name''" for v
    by (simp_all add: lodash_get_plain)
  show ?thesis
  proof (cases "prefix ''refs/tags/'' rf")
    case True
    then have rep: "lodash_replace rf ''refs/tags/'' [] = drop (length ''refs/tags/'') rf"
      by (rule lodash_replace_prefix)
    show ?thesis
      using True
      by (simp add: getRefCommit_def validate_owner_repo_ref [OF assms] assms
            lodash_startsWith_def lodash_toString_def template_def rep rv V5_def
            lodash_get_default_data plain Let_def split: sum.splits)
  next
    case False
    have rep: "prefix ''refs/heads/'' rf
        \<Longrightarrow> lodash_replace rf ''refs/heads/'' [] = drop (length ''refs/heads/'') rf"
      by (rule lodash_replace_prefix)
    show ?thesis
      using False rep
      by (simp add: getRefCommit_def validate_owner_repo_ref [OF assms] assms
            lodash_startsWith_def lodash_toString_def template_def rv V5_def
            lodash_get_default_data lodash_get_commit_sha lodash_get_commit_commit_message
            Let_def split: sum.splits)
  qed
qed

theorem getRefCommit_resolves_ref_witness:
  "map (\<lambda>rf. (\<lambda>r. (map (\<lambda>x. req_url (fst x)) (trace (snd (snd r))), fst r))
          (getRefCommit
             (\<lambda>rq n. (Inr (JObj [(''data'', JObj
                 [(''target_commitish'', JStr ''c0ffee''), (''tag_name'', JStr ''v1.0''),
                  (''commit'', JObj [(''sha'', JStr ''beef''),
                     (''commit'', JObj [(''message'', JStr ''fix'')])])])]), n))
             \<lparr> gitee_access_token = ''t0k'' \<rparr>
             (empty_params\<lparr> owner := Some ''acme'', repo := Some ''site'', ref := Some rf \<rparr>
                :: unit params)
             \<lparr> trace = [], net = () \<rparr>))
     [''refs/tags/v1.0'', ''refs/heads/main'', ''main'']
   = (let body = JObj
                 [(''target_commitish'', JStr ''c0ffee''), (''tag_name'', JStr ''v1.0''),
                  (''commit'', JObj [(''sha'', JStr ''beef''),
                     (''commit'', JObj [(''message'', JStr ''fix'')])])]
      in [([''https://gitee.com/api/v5/repos/acme/site/releases/tags/v1.0''],
           Inr \<lparr> commit_sha = JStr ''c0ffee'', commit_message = JStr ''v1.0'',
                 commit_source = body \<rparr>),
          ([''https://gitee.com/api/v5/repos/acme/site/branches/main''],
           Inr \<lparr> commit_sha = JStr ''beef'', commit_message = JStr ''fix'',
                 commit_source = body \<rparr>),
          ([''https://gitee.com/api/v5/repos/acme/site/branches/main''],
           Inr \<lparr> commit_sha = JStr ''beef'', commit_message = JStr ''fix'',
                 commit_source = body \<rparr>)])"
proof -
  let ?ax = "\<lambda>(rq :: unit request) (n :: unit). (Inr (JObj [(''data'', JObj
                 [(''target_commitish'', JStr ''c0ffee''), (''tag_name'', JStr ''v1.0''),
                  (''commit'', JObj [(''sha'', JStr ''beef''),
                     (''commit'', JObj [(''message'', JStr ''fix'')])])])]) :: error + json, n)"
  let ?cl = "\<lparr> gitee_access_token = ''t0k'' \<rparr>"
  let ?w = "\<lparr> trace = [], net = () \<rparr> :: (unit, unit) world"
  let ?ps = "\<lambda>rf. empty_params\<lparr> owner := Some ''acme'', repo := Some ''site'', ref := Some rf \<rparr>
                :: unit params"
  show ?thesis
    using getRefCommit_resolves_ref [of "?ps ''refs/tags/v1.0''" "''acme''" "''site''"
        "''refs/tags/v1.0''" ?ax ?cl ?w]
      getRefCommit_resolves_ref [of "?ps ''refs/heads/main''" "''acme''" "''site''"
        "''refs/heads/main''" ?ax ?cl ?w]
      getRefCommit_resolves_ref [of "?ps ''main''" "''acme''" "''site''" "''main''" ?ax ?cl ?w]
    by (simp add: empty_params_def Let_def)
qed

section \<open>Webhooks\<close>

text \<open>
  Claim C3. A successful \<open>getWebhook\<close> should carry the id and the url of the hook as the
  body under \<open>data\<close> gives them, as \<open>listWebhook\<close> and \<open>createWebhook\<close> do. The method reads both
  from the response object instead of from the body: on a response whose body holds id 7
  and a url, the output has neither.
\<close>

theorem getWebhook_id_url_not_from_body:
  "getWebhook (\<lambda>h. h)
     (\<lambda>rq n. (Inr (JObj [(''data'', JObj [(''id'', JNum 7),
                                           (''url'', JStr ''https://example.com/hook'')]),
                          (''status'', JNum 200)]), n))
     \<lparr> gitee_access_token = ''t0k'' \<rparr>
     (empty_params\<lparr> owner := Some ''acme'', repo := Some ''site'', hook_id := Some ''7'' \<rparr>)
     \<lparr> trace = [], net = () \<rparr>
   = (Inr \<lparr> webhook_id = JUndefined, webhook_url = JUndefined,
            webhook_source = JObj [(''id'', JNum 7), (''url'', JStr ''https://example.com/hook'')] \<rparr>,
      empty_params\<lparr> owner := Some ''acme'', repo := Some ''site'', hook_id := Some ''7'',
        access_token := Some ''t0k'' \<rparr>,
      \<lparr> trace = [(\<lparr> req_method = ''GET'',
                     req_url = ''https://gitee.com/api/v5/repos/acme/site/hooks/7'',
                     req_params = empty_params\<lparr> owner := Some ''acme'', repo := Some ''site'',
                       hook_id := Some ''7'', access_token := Some ''t0k'' \<rparr> \<rparr>,
                   Inr (JObj [(''data'', JObj [(''id'', JNum 7),
                                               (''url'', JStr ''https://example.com/hook'')]),
                              (''status'', JNum 200)]))],
        net = () \<rparr>)"
  by (simp add: getWebhook_def validateGetWebhookParams_def requestV5_def lodash_defaults_def
        rest_defaults_def or_default_def lodash_get_default_def lodash_get_def castPath_def
        isKey_def empty_params_def template_def hook_template_def V5_def Let_def)

section \<open>The source of an output\<close>

lemma requestList_frame:
  assumes "requestList axios this url ps w = Some (r, ps1, w1)"
  shows "\<exists>new. new \<noteq> [] \<and> trace w1 = trace w @ new
           \<and> req_params (fst (hd new)) = with_token this ps
           \<and> ps1 = (with_token this ps)\<lparr> page := page ps1 \<rparr>
           \<and> (\<forall>rows. r = Inr rows \<longrightarrow>
                 page ps1 = page_plus_one (page (req_params (fst (last new))))
                 \<and> rows = concat (map (page_rows \<circ> snd) new))"
proof -
  from requestList_loop_sound [OF assms [unfolded requestList_def]]
  obtain new where n: "new \<noteq> []" and tr: "trace w1 = trace w @ new"
    and rq: "map fst new = map (page_request this url ps) [0..<length new]"
    and fin: "ps1 = after_pages this ps (case r of Inl _ \<Rightarrow> length new - 1 | Inr _ \<Rightarrow> length new)"
    and rws: "\<forall>rows'. r = Inr rows' \<longrightarrow> rows' = [] @ concat (map (page_rows \<circ> snd) new)"
    by auto
  have pos: "0 < length new" using n by simp
  have "hd (map fst new) = hd (map (page_request this url ps) [0..<length new])"
    by (simp only: rq)
  then have h: "fst (hd new) = page_request this url ps 0"
    using n pos by (simp add: hd_map)
  have "last (map fst new) = last (map (page_request this url ps) [0..<length new])"
    by (simp only: rq)
  then have l: "fst (last new) = page_request this url ps (length new - 1)"
    using n pos by (simp add: last_map)
  have a: "req_params (fst (hd new)) = with_token this ps"
    by (simp add: h page_request_def after_pages_0)
  have b: "ps1 = (with_token this ps)\<lparr> page := page ps1 \<rparr>"
    by (subst (1 2) fin) (simp add: after_pages_def)
  have c: "page ps1 = page_plus_one (page (req_params (fst (last new))))" if "r = Inr rows" for rows
  proof -
    have "ps1 = after_pages this ps (Suc (length new - 1))"
      using fin that pos by simp
    then show ?thesis
      by (simp add: l page_request_def after_pages_def)
  qed
  from n tr a b c rws show ?thesis by auto
qed


lemma map_rows_source:
  assumes "\<And>row x. f row = Inr x \<Longrightarrow> src x = row"
    and "map_rows f rows = Inr outs"
  shows "map src outs = rows"
  using assms(2)
proof (induct rows arbitrary: outs)
  case Nil
  then show ?case by simp
next
  case (Cons row rows)
  then show ?case
    by (auto simp: assms(1) split: sum.splits)
qed

lemma listRepos_row_source: "listRepos_row row = Inr x \<Longrightarrow> repo_source x = row"
  by (auto simp: listRepos_row_def split: if_splits)

lemma listBranchs_row_source: "listBranchs_row row = Inr x \<Longrightarrow> branch_source x = row"
  by (auto simp: listBranchs_row_def split: if_splits)

lemma listWebhook_row_source: "map webhook_source (map listWebhook_row rows) = rows"
  by (induct rows) (simp_all add: listWebhook_row_def)

lemma requestV5_trace:
  "requestV5 axios this path method ps w = (r, ps1, w1)
     \<Longrightarrow> \<exists>rq. trace w1 = trace w @ [(rq, r)] \<and> ps1 = with_token this ps"
  by (auto simp: requestV5_def lodash_defaults_token Let_def split: prod.splits)

text \<open>
  Claim C4. Every output that an operation returns keeps the response body it was made
  from, unchanged, as its source: for the three list operations the sources of the outputs
  are, in order, the rows of the bodies received; for \<open>getRefCommit\<close>, \<open>getWebhook\<close> and
  \<open>createWebhook\<close> the source is the body of the one response, a response carrying a body
  under \<open>data\<close>.
\<close>

theorem outputs_keep_source:
  "(\<forall>outs w'. listRepos axios this w = Some (Inr outs, w') \<longrightarrow>
      (\<exists>new. trace w' = trace w @ new
         \<and> map repo_source outs = concat (map (page_rows \<circ> snd) new)))
   \<and> (\<forall>outs ps' w'. listBranchs axios this ps w = Some (Inr outs, ps', w') \<longrightarrow>
      (\<exists>new. trace w' = trace w @ new
         \<and> map branch_source outs = concat (map (page_rows \<circ> snd) new)))
   \<and> (\<forall>outs ps' w'. listWebhook axios this ps w = Some (Inr outs, ps', w') \<longrightarrow>
      (\<exists>new. trace w' = trace w @ new
         \<and> map webhook_source outs = concat (map (page_rows \<circ> snd) new)))
   \<and> (\<forall>out ps' w'. getRefCommit axios this ps w = (Inr out, ps', w') \<longrightarrow>
      (\<exists>rq result. trace w' = trace w @ [(rq, Inr result)]
         \<and> (js_prop result ''data'' \<noteq> JUndefined \<longrightarrow> commit_source out = js_prop result ''data'')))
   \<and> (\<forall>out ps' w'. getWebhook hook_text axios this ps w = (Inr out, ps', w') \<longrightarrow>
      (\<exists>rq result. trace w' = trace w @ [(rq, Inr result)]
         \<and> (js_prop result ''data'' \<noteq> JUndefined \<longrightarrow> webhook_source out = js_prop result ''data'')))
   \<and> (\<forall>out ps' w'. createWebhook axios this ps w = (Inr out, ps', w') \<longrightarrow>
      (\<exists>rq result. trace w' = trace w @ [(rq, Inr result)]
         \<and> (js_prop result ''data'' \<noteq> JUndefined \<longrightarrow> created_source out = js_prop result ''data'')))"
proof (intro conjI allI impI)
  fix outs w'
  assume a: "listRepos axios this w = Some (Inr outs, w')"
  then obtain rows ps1 where
    rl: "requestList axios this ''/user/repos''
           (lodash_defaults (empty_params\<lparr> affiliation := Some ''owner'' \<rparr>) PARAMS) w
         = Some (Inr rows, ps1, w')"
    and mr: "map_rows listRepos_row rows = Inr outs"
    by (auto simp: listRepos_def split: option.splits sum.splits)
  from requestList_frame [OF rl] obtain new where
    "trace w' = trace w @ new" and "rows = concat (map (page_rows \<circ> snd) new)"
    by blast
  moreover have "map repo_source outs = rows"
    using listRepos_row_source mr by (rule map_rows_source)
  ultimately show "\<exists>new. trace w' = trace w @ new
      \<and> map repo_source outs = concat (map (page_rows \<circ> snd) new)"
    by blast
next
  fix outs ps' w'
  assume a: "listBranchs axios this ps w = Some (Inr outs, ps', w')"
  then obtain rows url where
    rl: "requestList axios this url (lodash_defaults ps PARAMS) w = Some (Inr rows, ps', w')"
    and mr: "map_rows listBranchs_row rows = Inr outs"
    by (auto simp: listBranchs_def split: option.splits sum.splits)
  from requestList_frame [OF rl] obtain new where
    "trace w' = trace w @ new" and "rows = concat (map (page_rows \<circ> snd) new)"
    by blast
  moreover have "map branch_source outs = rows"
    using listBranchs_row_source mr by (rule map_rows_source)
  ultimately show "\<exists>new. trace w' = trace w @ new
      \<and> map branch_source outs = concat (map (page_rows \<circ> snd) new)"
    by blast
next
  fix outs ps' w'
  assume a: "listWebhook axios this ps w = Some (Inr outs, ps', w')"
  then obtain rows url where
    rl: "requestList axios this url (lodash_defaults ps PARAMS) w = Some (Inr rows, ps', w')"
    and mr: "outs = map listWebhook_row rows"
    by (auto simp: listWebhook_def split: option.splits sum.splits)
  from requestList_frame [OF rl] obtain new where
    "trace w' = trace w @ new" and "rows = concat (map (page_rows \<circ> snd) new)"
    by blast
  moreover have "map webhook_source outs = rows"
    by (simp only: mr listWebhook_row_source)
  ultimately show "\<exists>new. trace w' = trace w @ new
      \<and> map webhook_source outs = concat (map (page_rows \<circ> snd) new)"
    by blast
next
  fix out ps' w'
  assume a: "getRefCommit axios this ps w = (Inr out, ps', w')"
  then obtain path result ps1 where
    rv: "requestV5 axios this path ''GET'' empty_params w = (Inr result, ps1, w')"
    and src: "commit_source out = lodash_get_default result ''data'' (JObj [])"
    by (auto simp: getRefCommit_def Let_def split: sum.splits if_splits prod.splits)
  from requestV5_trace [OF rv] obtain rq where "trace w' = trace w @ [(rq, Inr result)]"
    by blast
  then show "\<exists>rq result. trace w' = trace w @ [(rq, Inr result)]
      \<and> (js_prop result ''data'' \<noteq> JUndefined \<longrightarrow> commit_source out = js_prop result ''data'')"
    using src by (auto simp: lodash_get_default_data)
next
  fix out ps' w'
  assume a: "getWebhook hook_text axios this ps w = (Inr out, ps', w')"
  then obtain path result ps1 where
    rv: "requestV5 axios this path ''GET'' ps w = (Inr result, ps1, w')"
    and src: "webhook_source out = lodash_get_default result ''data'' (JObj [])"
    by (auto simp: getWebhook_def Let_def split: sum.splits if_splits prod.splits)
  from requestV5_trace [OF rv] obtain rq where "trace w' = trace w @ [(rq, Inr result)]"
    by blast
  then show "\<exists>rq result. trace w' = trace w @ [(rq, Inr result)]
      \<and> (js_prop result ''data'' \<noteq> JUndefined \<longrightarrow> webhook_source out = js_prop result ''data'')"
    using src by (auto simp: lodash_get_default_data)
next
  fix out ps' w'
  assume a: "createWebhook axios this ps w = (Inr out, ps', w')"
  then obtain path result ps1 where
    rv: "requestV5 axios this path ''POST'' ps w = (Inr result, ps1, w')"
    and src: "created_source out = lodash_get_default result ''data'' (JObj [])"
    by (auto simp: createWebhook_def Let_def split: sum.splits if_splits prod.splits)
  from requestV5_trace [OF rv] obtain rq where "trace w' = trace w @ [(rq, Inr result)]"
    by blast
  then show "\<exists>rq result. trace w' = trace w @ [(rq, Inr result)]
      \<and> (js_prop result ''data'' \<noteq> JUndefined \<longrightarrow> created_source out = js_prop result ''data'')"
    using src by (auto simp: lodash_get_default_data)
qed


theorem outputs_keep_source_witness:
  "\<exists>out ps' w'.
     getRefCommit (\<lambda>rq n. (Inr (JObj [(''data'', JObj [(''tag_name'', JStr ''v1.0'')])]), n))
       \<lparr> gitee_access_token = ''t0k'' \<rparr>
       (empty_params\<lparr> owner := Some ''acme'', repo := Some ''site'',
          ref := Some ''refs/tags/v1.0'' \<rparr> :: unit params)
       \<lparr> trace = [], net = () \<rparr> = (Inr out, ps', w')
     \<and> commit_source out = JObj [(''tag_name'', JStr ''v1.0'')]"
proof -
  let ?ax = "\<lambda>(rq :: unit request) (n :: unit).
      (Inr (JObj [(''data'', JObj [(''tag_name'', JStr ''v1.0'')])]) :: error + json, n)"
  let ?cl = "\<lparr> gitee_access_token = ''t0k'' \<rparr>"
  let ?ps = "empty_params\<lparr> owner := Some ''acme'', repo := Some ''site'',
          ref := Some ''refs/tags/v1.0'' \<rparr> :: unit params"
  let ?w = "\<lparr> trace = [], net = () \<rparr> :: (unit, unit) world"
  obtain r ps' w' where ev: "getRefCommit ?ax ?cl ?ps ?w = (r, ps', w')"
    by (cases "getRefCommit ?ax ?cl ?ps ?w") auto
  have tr: "map snd (trace w') = [Inr (JObj [(''data'', JObj [(''tag_name'', JStr ''v1.0'')])])]"
    and ok: "\<exists>out. r = Inr out"
    using ev
    by (auto simp: getRefCommit_def validateGetRefCommitParams_def requestV5_def
          lodash_startsWith_def lodash_toString_def empty_params_def Let_def)
  from ok obtain out where r: "r = Inr out" by blast
  from outputs_keep_source [of ?ax ?cl ?w ?ps "\<lambda>h. []"] ev [unfolded r]
  obtain rq result where t2: "trace w' = trace ?w @ [(rq, Inr result)]"
    and src: "js_prop result ''data'' \<noteq> JUndefined \<longrightarrow> commit_source out = js_prop result ''data''"
    by blast
  have "result = JObj [(''data'', JObj [(''tag_name'', JStr ''v1.0'')])]"
    using tr t2 by simp
  with src have "commit_source out = JObj [(''tag_name'', JStr ''v1.0'')]"
    by simp
  with ev r show ?thesis by blast
qed

section \<open>Validation\<close>

text \<open>
  A call of \<open>listBranchs\<close> with the empty object: the promise it returns is rejected with the
  validation error; the call does not throw.
\<close>

theorem missing_parameter_rejects_not_throws:
  "map_option (\<lambda>r. async (fst r))
     (listBranchs (\<lambda>rq n. (Inr JNull, n)) \<lparr> gitee_access_token = ''t0k'' \<rparr>
        (empty_params :: unit params) \<lparr> trace = [], net = () \<rparr>)
     = Some (Rejected (ValidationError ''owner''))
   \<and> map_option (\<lambda>r. async (fst r))
     (listBranchs (\<lambda>rq n. (Inr JNull, n)) \<lparr> gitee_access_token = ''t0k'' \<rparr>
        (empty_params :: unit params) \<lparr> trace = [], net = () \<rparr>)
     \<noteq> Some (Thrown (ValidationError ''owner''))"
  by (simp add: listBranchs_def validateListBranchsParams_def empty_params_def async_def)

text \<open>
  Claim C5, amended. An operation called without one of its required parameters hands
  back a promise that is rejected with a validation error (it does not throw), and nothing
  is asked of the transport: the world and the caller's object are as before the call.
\<close>

theorem validation_before_any_request:
  "(owner ps = None \<or> repo ps = None \<longrightarrow>
      (\<exists>k. listBranchs axios this ps w = Some (Inl (ValidationError k), ps, w)
         \<and> map_option (\<lambda>r. async (fst r)) (listBranchs axios this ps w)
              = Some (Rejected (ValidationError k))))
   \<and> (owner ps = None \<or> repo ps = None \<or> ref ps = None \<longrightarrow>
      (\<exists>k. getRefCommit axios this ps w = (Inl (ValidationError k), ps, w)
         \<and> async (fst (getRefCommit axios this ps w)) = Rejected (ValidationError k)))
   \<and> (owner ps = None \<or> repo ps = None \<longrightarrow>
      (\<exists>k. listWebhook axios this ps w = Some (Inl (ValidationError k), ps, w)
         \<and> map_option (\<lambda>r. async (fst r)) (listWebhook axios this ps w)
              = Some (Rejected (ValidationError k))))
   \<and> (owner ps = None \<or> repo ps = None \<or> hook_id ps = None \<longrightarrow>
      (\<exists>k. getWebhook hook_text axios this ps w = (Inl (ValidationError k), ps, w)
         \<and> async (fst (getWebhook hook_text axios this ps w)) = Rejected (ValidationError k)))
   \<and> (owner ps = None \<or> repo ps = None \<longrightarrow>
      (\<exists>k. createWebhook axios this ps w = (Inl (ValidationError k), ps, w)
         \<and> async (fst (createWebhook axios this ps w)) = Rejected (ValidationError k)))
   \<and> (owner ps = None \<or> repo ps = None \<or> hook_id ps = None \<longrightarrow>
      (\<exists>k. updateWebhook hook_text axios this ps w = (Inl (ValidationError k), ps, w)
         \<and> async (fst (updateWebhook hook_text axios this ps w)) = Rejected (ValidationError k)))
   \<and> (owner ps = None \<or> repo ps = None \<or> hook_id ps = None \<longrightarrow>
      (\<exists>k. deleteWebhook hook_text axios this ps w = (Inl (ValidationError k), ps, w)
         \<and> async (fst (deleteWebhook hook_text axios this ps w)) = Rejected (ValidationError k)))"
proof (intro conjI impI)
  assume "owner ps = None \<or> repo ps = None"
  then show "\<exists>k. listBranchs axios this ps w = Some (Inl (ValidationError k), ps, w)
         \<and> map_option (\<lambda>r. async (fst r)) (listBranchs axios this ps w)
              = Some (Rejected (ValidationError k))"
    by (auto simp: listBranchs_def validateListBranchsParams_def async_def)
next
  assume "owner ps = None \<or> repo ps = None \<or> ref ps = None"
  then show "\<exists>k. getRefCommit axios this ps w = (Inl (ValidationError k), ps, w)
         \<and> async (fst (getRefCommit axios this ps w)) = Rejected (ValidationError k)"
    by (auto simp: getRefCommit_def validateGetRefCommitParams_def async_def)
next
  assume "owner ps = None \<or> repo ps = None"
  then show "\<exists>k. listWebhook axios this ps w = Some (Inl (ValidationError k), ps, w)
         \<and> map_option (\<lambda>r. async (fst r)) (listWebhook axios this ps w)
              = Some (Rejected (ValidationError k))"
    by (auto simp: listWebhook_def validateListWebhookParams_def async_def)
next
  assume "owner ps = None \<or> repo ps = None \<or> hook_id ps = None"
  then show "\<exists>k. getWebhook hook_text axios this ps w = (Inl (ValidationError k), ps, w)
         \<and> async (fst (getWebhook hook_text axios this ps w)) = Rejected (ValidationError k)"
    by (auto simp: getWebhook_def validateGetWebhookParams_def async_def)
next
  assume "owner ps = None \<or> repo ps = None"
  then show "\<exists>k. createWebhook axios this ps w = (Inl (ValidationError k), ps, w)
         \<and> async (fst (createWebhook axios this ps w)) = Rejected (ValidationError k)"
    by (auto simp: createWebhook_def validateCreateWebhookParams_def async_def)
next
  assume "owner ps = None \<or> repo ps = None \<or> hook_id ps = None"
  then show "\<exists>k. updateWebhook hook_text axios this ps w = (Inl (ValidationError k), ps, w)
         \<and> async (fst (updateWebhook hook_text axios this ps w)) = Rejected (ValidationError k)"
    by (auto simp: updateWebhook_def validateUpdateWebhookParams_def async_def)
next
  assume "owner ps = None \<or> repo ps = None \<or> hook_id ps = None"
  then show "\<exists>k. deleteWebhook hook_text axios this ps w = (Inl (ValidationError k), ps, w)
         \<and> async (fst (deleteWebhook hook_text axios this ps w)) = Rejected (ValidationError k)"
    by (auto simp: deleteWebhook_def validateDeleteWebhookParams_def async_def)
qed

theorem validation_before_any_request_witness:
  "listBranchs (\<lambda>rq n. (Inr JNull, n)) \<lparr> gitee_access_token = ''t0k'' \<rparr>
      (empty_params :: unit params) \<lparr> trace = [], net = () \<rparr>
     = Some (Inl (ValidationError ''owner''), empty_params, \<lparr> trace = [], net = () \<rparr>)
   \<and> getRefCommit (\<lambda>rq n. (Inr JNull, n)) \<lparr> gitee_access_token = ''t0k'' \<rparr>
      (empty_params\<lparr> owner := Some ''acme'', repo := Some ''site'' \<rparr> :: unit params)
      \<lparr> trace = [], net = () \<rparr>
     = (Inl (ValidationError ''ref''),
        empty_params\<lparr> owner := Some ''acme'', repo := Some ''site'' \<rparr>, \<lparr> trace = [], net = () \<rparr>)
   \<and> async (fst (deleteWebhook (\<lambda>h. h) (\<lambda>rq n. (Inr JNull, n)) \<lparr> gitee_access_token = ''t0k'' \<rparr>
      (empty_params\<lparr> owner := Some ''acme'', repo := Some ''site'' \<rparr>)
      \<lparr> trace = [], net = () \<rparr>))
     = Rejected (ValidationError ''hook_id'')"
  using validation_before_any_request [of "empty_params :: unit params"
      "\<lambda>rq n. (Inr JNull, n)" "\<lparr> gitee_access_token = ''t0k'' \<rparr>" "\<lparr> trace = [], net = () \<rparr>"]
    validation_before_any_request [of
      "empty_params\<lparr> owner := Some ''acme'', repo := Some ''site'' \<rparr> :: unit params"
      "\<lambda>rq n. (Inr JNull, n)" "\<lparr> gitee_access_token = ''t0k'' \<rparr>" "\<lparr> trace = [], net = () \<rparr>"]
    validation_before_any_request [of
      "empty_params\<lparr> owner := Some ''acme'', repo := Some ''site'' \<rparr> :: string params"
      "\<lambda>rq n. (Inr JNull, n)" "\<lparr> gitee_access_token = ''t0k'' \<rparr>" "\<lparr> trace = [], net = () \<rparr>"
      "\<lambda>h. h"]
  by (simp add: empty_params_def listBranchs_def getRefCommit_def deleteWebhook_def
        validateListBranchsParams_def validateGetRefCommitParams_def
        validateDeleteWebhookParams_def async_def)

section \<open>What a list call does to the caller's object\<close>

lemma validate_list_webhook:
  "owner ps = Some ow \<Longrightarrow> repo ps = Some rp \<Longrightarrow> validateListWebhookParams ps = Inr ()"
  by (simp add: validateListWebhookParams_def)

lemma filled_eq: "with_token this (lodash_defaults ps PARAMS) = filled this ps"
  by (simp add: filled_def lodash_defaults_PARAMS)

lemma list_call_frame:
  assumes "requestList axios this url (lodash_defaults ps PARAMS) w = Some (r, ps', w')"
  shows "\<exists>new. new \<noteq> [] \<and> trace w' = trace w @ new
         \<and> req_params (fst (hd new)) = filled this ps
         \<and> ps' = (filled this ps)\<lparr> page := page ps' \<rparr>
         \<and> (\<forall>rows n. r = Inr rows \<and> page (req_params (fst (last new))) = Some (Num n)
               \<longrightarrow> page ps' = Some (Num (n + 1)))"
proof -
  from requestList_frame [OF assms] obtain new where
    n: "new \<noteq> []" and tr: "trace w' = trace w @ new"
    and h: "req_params (fst (hd new)) = with_token this (lodash_defaults ps PARAMS)"
    and f: "ps' = (with_token this (lodash_defaults ps PARAMS))\<lparr> page := page ps' \<rparr>"
    and l: "\<forall>rows. r = Inr rows \<longrightarrow>
                 page ps' = page_plus_one (page (req_params (fst (last new))))"
    by blast
  have h': "req_params (fst (hd new)) = filled this ps"
    by (simp only: h filled_eq)
  have f': "ps' = (filled this ps)\<lparr> page := page ps' \<rparr>"
    using f by (simp only: filled_eq)
  have l': "\<forall>rows n. r = Inr rows \<and> page (req_params (fst (last new))) = Some (Num n)
               \<longrightarrow> page ps' = Some (Num (n + 1))"
    using l by (auto simp: page_plus_one_def)
  from n tr h' f' l' show ?thesis by blast
qed

lemma page_len_Some:
  "page_len r = Some k
     \<Longrightarrow> \<exists>result xs. r = Inr result \<and> js_prop result ''data'' = JArr xs \<and> length xs = k"
  by (auto simp: page_len_def split: sum.splits json.splits)

lemma requestList_replay_served:
  fixes ps0 :: "'h params" and w :: "('h, nat) world"
  assumes pp: "per_page ps0 = Some (Num (int pp))" and p: "page ps0 = Some (Num p)"
    and sv: "served rs (net w) pp m"
  shows "\<exists>rows w'. requestList (replay rs) this url ps0 w =
           Some (Inr rows, (with_token this ps0)\<lparr> page := Some (Num (p + int m + 1)) \<rparr>, w')
         \<and> length (trace w') = length (trace w) + (m + 1)"
proof -
  define res where "res j = (case rs (net w + j) of Inr r \<Rightarrow> r | Inl e \<Rightarrow> JNull)" for j
  define pg where "pg j = (case js_prop (res j) ''data'' of JArr xs \<Rightarrow> xs | _ \<Rightarrow> [])" for j
  have full: "page_len (rs (net w + j)) = Some pp" if "j < m" for j
    using sv that by (simp add: served_def)
  obtain k where last: "page_len (rs (net w + m)) = Some k" and k: "k \<noteq> pp"
    using sv by (auto simp: served_def)
  have each: "rs (net w + j) = Inr (res j) \<and> js_prop (res j) ''data'' = JArr (pg j)
      \<and> length (pg j) = l" if "page_len (rs (net w + j)) = Some l" for j l
    using page_len_Some [OF that] by (auto simp: res_def pg_def)
  have a: "rs (net w + j) = Inr (res j)" and b: "js_prop (res j) ''data'' = JArr (pg j)"
    if "j \<le> m" for j
    using that each [OF full [of j]] each [OF last] by (cases "j = m"; simp)+
  have c: "length (pg j) = pp" if "j < m" for j
    using each [OF full [OF that]] by simp
  have d: "length (pg m) \<noteq> pp"
    using each [OF last] k by simp
  have run: "requestList_loop (replay rs) this url [] ps0 w =
     Some (Inr ([] @ concat (map pg [0..<Suc m])), after_pages this ps0 (Suc m),
       \<lparr> trace = trace w @ map (\<lambda>j. (page_request this url ps0 j, Inr (res j))) [0..<Suc m],
         net = net w + Suc m \<rparr>)"
    by (rule requestList_loop_pages [where st = "\<lambda>j. net w + j" and pp = pp, OF pp])
       (simp_all add: replay_def a b c d)
  have ap: "after_pages this ps0 (Suc m)
      = (with_token this ps0)\<lparr> page := Some (Num (p + int m + 1)) \<rparr>"
    by (simp add: after_pages_def p funpow_page_plus_one del: funpow.simps)
  show ?thesis
    unfolding requestList_def run ap by (simp del: upt_Suc)
qed

text \<open>
  A call of \<open>listBranchs\<close> with the empty object: validation stops it, and the object still
  has neither \<open>per_page\<close> nor an access token afterwards; nothing was sent.
\<close>

theorem rejected_call_leaves_params:
  "map_option (\<lambda>r. (per_page (fst (snd r)), access_token (fst (snd r)), trace (snd (snd r))))
     (listBranchs (\<lambda>rq n. (Inr (JObj [(''data'', JArr [])]), n)) \<lparr> gitee_access_token = ''t0k'' \<rparr>
        (empty_params :: unit params) \<lparr> trace = [], net = () \<rparr>)
   = Some (None, None, [])"
  by (simp add: listBranchs_def validateListBranchsParams_def empty_params_def)

text \<open>
  Claim C10, amended. A call of \<open>listBranchs\<close> or \<open>listWebhook\<close> without an owner or a
  repository leaves the caller's object as it was. A call with both changes the object
  the caller passes: the first request already carries it with \<open>per_page\<close> 100, \<open>page\<close> 1
  and \<open>sort\<close> \<open>updated\<close> filled in where the caller gave none, and with the access token;
  when the call is over the object is as that request carried it but for \<open>page\<close>, which
  after a fetch that returned rows is one more than the page of the last request (page
  numbers below \<open>2^53\<close>). Over pages that are full and then one that is not, the call does
  return, and leaves \<open>page\<close> at the first page plus the number of requests.
\<close>

theorem list_calls_change_caller_params:
  fixes ps :: "'h params" and w :: "('h, 'w) world" and wn :: "('h, nat) world"
  shows "(owner ps = None \<or> repo ps = None \<longrightarrow>
      (\<exists>e. listBranchs axios this ps w = Some (Inl e, ps, w))
      \<and> (\<exists>e. listWebhook axios this ps w = Some (Inl e, ps, w)))
   \<and> (owner ps \<noteq> None \<and> repo ps \<noteq> None \<longrightarrow>
      (\<forall>res ps' w'. listBranchs axios this ps w = Some (res, ps', w') \<longrightarrow>
        (\<exists>new. new \<noteq> [] \<and> trace w' = trace w @ new
           \<and> req_params (fst (hd new)) = filled this ps
           \<and> ps' = (filled this ps)\<lparr> page := page ps' \<rparr>
           \<and> (\<forall>outs n. res = Inr outs \<and> page (req_params (fst (last new))) = Some (Num n)
                 \<and> \<bar>n\<bar> < 9007199254740992 \<longrightarrow> page ps' = Some (Num (n + 1)))))
      \<and> (\<forall>res ps' w'. listWebhook axios this ps w = Some (res, ps', w') \<longrightarrow>
        (\<exists>new. new \<noteq> [] \<and> trace w' = trace w @ new
           \<and> req_params (fst (hd new)) = filled this ps
           \<and> ps' = (filled this ps)\<lparr> page := page ps' \<rparr>
           \<and> (\<forall>outs n. res = Inr outs \<and> page (req_params (fst (last new))) = Some (Num n)
                 \<and> \<bar>n\<bar> < 9007199254740992 \<longrightarrow> page ps' = Some (Num (n + 1)))))
      \<and> (\<forall>pp p m. per_page (filled this ps) = Some (Num (int pp))
            \<and> page (filled this ps) = Some (Num p) \<and> \<bar>p\<bar> + int m < 9007199254740992
            \<and> served rs (net wn) pp m \<longrightarrow>
        (\<exists>res w'. listBranchs (replay rs) this ps wn
             = Some (res, (filled this ps)\<lparr> page := Some (Num (p + int m + 1)) \<rparr>, w')
           \<and> length (trace w') = length (trace wn) + (m + 1)))
      \<and> (\<forall>pp p m. per_page (filled this ps) = Some (Num (int pp))
            \<and> page (filled this ps) = Some (Num p) \<and> \<bar>p\<bar> + int m < 9007199254740992
            \<and> served rs (net wn) pp m \<longrightarrow>
        (\<exists>outs w'. listWebhook (replay rs) this ps wn
             = Some (Inr outs, (filled this ps)\<lparr> page := Some (Num (p + int m + 1)) \<rparr>, w')
           \<and> length (trace w') = length (trace wn) + (m + 1))))"
proof (intro conjI impI allI)
  assume "owner ps = None \<or> repo ps = None"
  then show "\<exists>e. listBranchs axios this ps w = Some (Inl e, ps, w)"
    by (auto simp: listBranchs_def validateListBranchsParams_def)
next
  assume "owner ps = None \<or> repo ps = None"
  then show "\<exists>e. listWebhook axios this ps w = Some (Inl e, ps, w)"
    by (auto simp: listWebhook_def validateListWebhookParams_def)
next
  fix res ps' w'
  assume v: "owner ps \<noteq> None \<and> repo ps \<noteq> None"
    and a: "listBranchs axios this ps w = Some (res, ps', w')"
  from v obtain ow rp where o: "owner ps = Some ow" "repo ps = Some rp" by auto
  from a obtain r url where
    rl: "requestList axios this url (lodash_defaults ps PARAMS) w = Some (r, ps', w')"
    and rr: "\<And>outs. res = Inr outs \<Longrightarrow> \<exists>rows. r = Inr rows"
    by (auto simp: listBranchs_def validate_owner_repo [OF o]
          split: option.splits sum.splits)
  from list_call_frame [OF rl] rr
  show "\<exists>new. new \<noteq> [] \<and> trace w' = trace w @ new
           \<and> req_params (fst (hd new)) = filled this ps
           \<and> ps' = (filled this ps)\<lparr> page := page ps' \<rparr>
           \<and> (\<forall>outs n. res = Inr outs \<and> page (req_params (fst (last new))) = Some (Num n)
                 \<and> \<bar>n\<bar> < 9007199254740992 \<longrightarrow> page ps' = Some (Num (n + 1)))"
    by blast
next
  fix res ps' w'
  assume v: "owner ps \<noteq> None \<and> repo ps \<noteq> None"
    and a: "listWebhook axios this ps w = Some (res, ps', w')"
  from v obtain ow rp where o: "owner ps = Some ow" "repo ps = Some rp" by auto
  from a obtain r url where
    rl: "requestList axios this url (lodash_defaults ps PARAMS) w = Some (r, ps', w')"
    and rr: "\<And>outs. res = Inr outs \<Longrightarrow> \<exists>rows. r = Inr rows"
    by (auto simp: listWebhook_def validate_list_webhook [OF o]
          split: option.splits sum.splits)
  from list_call_frame [OF rl] rr
  show "\<exists>new. new \<noteq> [] \<and> trace w' = trace w @ new
           \<and> req_params (fst (hd new)) = filled this ps
           \<and> ps' = (filled this ps)\<lparr> page := page ps' \<rparr>
           \<and> (\<forall>outs n. res = Inr outs \<and> page (req_params (fst (last new))) = Some (Num n)
                 \<and> \<bar>n\<bar> < 9007199254740992 \<longrightarrow> page ps' = Some (Num (n + 1)))"
    by blast
next
  fix pp p m
  assume v: "owner ps \<noteq> None \<and> repo ps \<noteq> None"
    and h: "per_page (filled this ps) = Some (Num (int pp))
            \<and> page (filled this ps) = Some (Num p) \<and> \<bar>p\<bar> + int m < 9007199254740992
            \<and> served rs (net wn) pp m"
  from v obtain ow rp where o: "owner ps = Some ow" "repo ps = Some rp" by auto
  let ?url = "''/repos/'' @ template (owner ps) @ ''/'' @ template (repo ps) @ ''/branches''"
  have pp: "per_page (lodash_defaults ps PARAMS) = Some (Num (int pp))"
    and p: "page (lodash_defaults ps PARAMS) = Some (Num p)"
    using h by (simp_all add: filled_def lodash_defaults_PARAMS)
  from requestList_replay_served [OF pp p, of rs wn m this ?url] h
  obtain rows w' where
    rl: "requestList (replay rs) this ?url (lodash_defaults ps PARAMS) wn =
           Some (Inr rows, (filled this ps)\<lparr> page := Some (Num (p + int m + 1)) \<rparr>, w')"
    and len: "length (trace w') = length (trace wn) + (m + 1)"
    unfolding filled_eq by blast
  have "listBranchs (replay rs) this ps wn =
      Some (map_rows listBranchs_row rows,
        (filled this ps)\<lparr> page := Some (Num (p + int m + 1)) \<rparr>, w')"
    by (simp only: listBranchs_def validate_owner_repo [OF o] rl
          sum.case option.case prod.case)
  with len show "\<exists>res w'. listBranchs (replay rs) this ps wn
             = Some (res, (filled this ps)\<lparr> page := Some (Num (p + int m + 1)) \<rparr>, w')
           \<and> length (trace w') = length (trace wn) + (m + 1)"
    by blast
next
  fix pp p m
  assume v: "owner ps \<noteq> None \<and> repo ps \<noteq> None"
    and h: "per_page (filled this ps) = Some (Num (int pp))
            \<and> page (filled this ps) = Some (Num p) \<and> \<bar>p\<bar> + int m < 9007199254740992
            \<and> served rs (net wn) pp m"
  from v obtain ow rp where o: "owner ps = Some ow" "repo ps = Some rp" by auto
  let ?url = "''/repos/'' @ template (owner ps) @ ''/'' @ template (repo ps) @ ''/hooks''"
  have pp: "per_page (lodash_defaults ps PARAMS) = Some (Num (int pp))"
    and p: "page (lodash_defaults ps PARAMS) = Some (Num p)"
    using h by (simp_all add: filled_def lodash_defaults_PARAMS)
  from requestList_replay_served [OF pp p, of rs wn m this ?url] h
  obtain rows w' where
    rl: "requestList (replay rs) this ?url (lodash_defaults ps PARAMS) wn =
           Some (Inr rows, (filled this ps)\<lparr> page := Some (Num (p + int m + 1)) \<rparr>, w')"
    and len: "length (trace w') = length (trace wn) + (m + 1)"
    unfolding filled_eq by blast
  have "listWebhook (replay rs) this ps wn =
      Some (Inr (map listWebhook_row rows),
        (filled this ps)\<lparr> page := Some (Num (p + int m + 1)) \<rparr>, w')"
    by (simp only: listWebhook_def validate_list_webhook [OF o] rl
          sum.case option.case prod.case)
  with len show "\<exists>outs w'. listWebhook (replay rs) this ps wn
             = Some (Inr outs, (filled this ps)\<lparr> page := Some (Num (p + int m + 1)) \<rparr>, w')
           \<and> length (trace w') = length (trace wn) + (m + 1)"
    by blast
qed

theorem list_calls_change_caller_params_witness:
  "(\<exists>res w'.
     listBranchs (\<lambda>rq n. (Inr (JObj [(''data'', JArr [JObj [(''name'', JStr ''main'')]])]), n))
       \<lparr> gitee_access_token = ''t0k'' \<rparr>
       (empty_params\<lparr> owner := Some ''acme'', repo := Some ''site'' \<rparr> :: unit params)
       \<lparr> trace = [], net = () \<rparr>
     = Some (res,
         empty_params\<lparr> owner := Some ''acme'', repo := Some ''site'', per_page := Some (Num 100),
           page := Some (Num 2), sort_key := Some ''updated'', access_token := Some ''t0k'' \<rparr>,
         w'))
   \<and> (\<exists>outs w'.
     listWebhook
       (replay (\<lambda>i. Inr (JObj [(''data'', JArr (if i = 0
          then replicate 100 (JObj [(''id'', JNum 1)]) else []))])))
       \<lparr> gitee_access_token = ''t0k'' \<rparr>
       (empty_params\<lparr> owner := Some ''acme'', repo := Some ''site'' \<rparr> :: unit params)
       \<lparr> trace = [], net = 0 \<rparr>
     = Some (Inr outs,
         empty_params\<lparr> owner := Some ''acme'', repo := Some ''site'', per_page := Some (Num 100),
           page := Some (Num 3), sort_key := Some ''updated'', access_token := Some ''t0k'' \<rparr>,
         w')
     \<and> length (trace w') = 2)"
proof -
  let ?ax = "\<lambda>(rq :: unit request) (n :: unit).
      (Inr (JObj [(''data'', JArr [JObj [(''name'', JStr ''main'')]])]) :: error + json, n)"
  let ?rs = "\<lambda>i::nat. Inr (JObj [(''data'', JArr (if i = 0
          then replicate 100 (JObj [(''id'', JNum 1)]) else []))]) :: error + json"
  let ?cl = "\<lparr> gitee_access_token = ''t0k'' \<rparr>"
  let ?ps = "empty_params\<lparr> owner := Some ''acme'', repo := Some ''site'' \<rparr> :: unit params"
  let ?w = "\<lparr> trace = [], net = () \<rparr> :: (unit, unit) world"
  let ?wn = "\<lparr> trace = [], net = 0 \<rparr> :: (unit, nat) world"
  note T = list_calls_change_caller_params [of ?ps ?ax ?cl ?w ?rs ?wn,
      THEN conjunct2, THEN mp]
  have valid: "owner ?ps \<noteq> None \<and> repo ?ps \<noteq> None"
    by (simp add: empty_params_def)
  have fl: "filled ?cl ?ps = empty_params\<lparr> owner := Some ''acme'', repo := Some ''site'',
      per_page := Some (Num 100), page := Some (Num 1), sort_key := Some ''updated'',
      access_token := Some ''t0k'' \<rparr>"
    by (simp add: filled_def empty_params_def)
  have returns: "\<exists>y. listBranchs ?ax ?cl ?ps ?w = Some y"
    by (simp add: listBranchs_def validateListBranchsParams_def requestList_def
          requestList_loop.simps requestList_body_def requestV5_def destructure_data_def
          lodash_defaults_def rest_defaults_def PARAMS_def empty_params_def
          page_plus_one_def Let_def)
  then obtain res ps' w' where ev: "listBranchs ?ax ?cl ?ps ?w = Some (res, ps', w')"
    by (metis prod.exhaust)
  have ok: "\<exists>outs. res = Inr outs" and cnt: "length (trace w') = 1"
    using ev
    by (auto simp: listBranchs_def validateListBranchsParams_def requestList_def
          requestList_loop.simps requestList_body_def requestV5_def destructure_data_def
          lodash_defaults_def rest_defaults_def PARAMS_def empty_params_def
          page_plus_one_def listBranchs_row_def Let_def)
  from T [OF valid, THEN conjunct1, rule_format, OF ev]
  obtain new where n: "new \<noteq> []" and tr: "trace w' = trace ?w @ new"
    and h: "req_params (fst (hd new)) = filled ?cl ?ps"
    and f: "ps' = (filled ?cl ?ps)\<lparr> page := page ps' \<rparr>"
    and l: "\<forall>outs n. res = Inr outs \<and> page (req_params (fst (last new))) = Some (Num n)
                 \<and> \<bar>n\<bar> < 9007199254740992 \<longrightarrow> page ps' = Some (Num (n + 1))"
    by blast
  have one: "length new = 1" using tr cnt by simp
  then have hl: "last new = hd new" by (cases new) auto
  have "page (req_params (fst (last new))) = Some (Num 1)"
    by (simp add: hl h fl)
  with l ok have pg: "page ps' = Some (Num 2)"
    by fastforce
  have a: "ps' = empty_params\<lparr> owner := Some ''acme'', repo := Some ''site'',
           per_page := Some (Num 100), page := Some (Num 2), sort_key := Some ''updated'',
           access_token := Some ''t0k'' \<rparr>"
    by (subst f) (simp add: filled_def pg empty_params_def)
  have hyp: "per_page (filled ?cl ?ps) = Some (Num (int 100))
      \<and> page (filled ?cl ?ps) = Some (Num 1) \<and> \<bar>1\<bar> + int 1 < 9007199254740992
      \<and> served ?rs (net ?wn) 100 1"
    by (simp add: filled_def empty_params_def served_def page_len_def)
  from T [OF valid, THEN conjunct2, THEN conjunct2, THEN conjunct2, rule_format, OF hyp]
  obtain outs wf where
    b: "listWebhook (replay ?rs) ?cl ?ps ?wn
          = Some (Inr outs, (filled ?cl ?ps)\<lparr> page := Some (Num (1 + int 1 + 1)) \<rparr>, wf)"
    and len: "length (trace wf) = length (trace ?wn) + (1 + 1)"
    by blast
  have b': "(filled ?cl ?ps)\<lparr> page := Some (Num (1 + int 1 + 1)) \<rparr>
      = empty_params\<lparr> owner := Some ''acme'', repo := Some ''site'',
           per_page := Some (Num 100), page := Some (Num 3), sort_key := Some ''updated'',
           access_token := Some ''t0k'' \<rparr>"
    by (simp add: filled_def empty_params_def)
  have len': "length (trace wf) = 2" using len by simp
  from ev a b [unfolded b'] len' show ?thesis by blast
qed

section \<open>Initialising the git configuration\<close>

text \<open>
  A call with the empty string as directory, on a platform where \<open>/\<close> starts an absolute
  path: the empty string is a relative path, yet the work is done in the temporary
  directory and not in the current working directory.
\<close>

theorem empty_execDir_goes_to_tmpdir:
  "\<not> path_isAbsolute
       \<lparr> os_tmpdir = ''/tmp'', process_cwd = ''/home/ci'',
         path_isAbsolute = (\<lambda>p. prefix ''/'' p),
         path_join = (\<lambda>a b. if b = [] then a else a @ ''/'' @ b) \<rparr> []
   \<and> performed (snd (initConfig (\<lambda>a s. (Inr (), s))
      \<lparr> os_tmpdir = ''/tmp'', process_cwd = ''/home/ci'',
        path_isAbsolute = (\<lambda>p. prefix ''/'' p),
        path_join = (\<lambda>a b. if b = [] then a else a @ ''/'' @ b) \<rparr>
      \<lparr> userName = ''bot'', userEmail = ''bot@example.com'', execDir = Some [] \<rparr>
      \<lparr> performed = [], sys = () \<rparr>))
     = [EnsureDir ''/tmp'', GitInit ''/tmp'',
        AddConfig ''/tmp'' ''user.name'' ''bot'',
        AddConfig ''/tmp'' ''user.email'' ''bot@example.com'']
   \<and> path_join
       \<lparr> os_tmpdir = ''/tmp'', process_cwd = ''/home/ci'',
         path_isAbsolute = (\<lambda>p. prefix ''/'' p),
         path_join = (\<lambda>a b. if b = [] then a else a @ ''/'' @ b) \<rparr> ''/home/ci'' []
     \<noteq> ''/tmp''"
  by (simp add: initConfig_def perform_def configExecDir_def execDir_or_tmpdir_def Let_def)

text \<open>
  Claim C9, amended. When the file system and the git tool do what is asked, every call
  of \<open>initConfig\<close> asks, in this order and nothing else: that the directory exists, that a
  repository is initialised in it, that \<open>user.name\<close> is set to the given name and
  \<open>user.email\<close> to the given address. The directory is the system's temporary directory
  when no directory is given or the empty string is, and the given one otherwise; in both
  cases it is used as it is when absolute and joined to the current working directory
  when not.
\<close>

theorem initConfig_actions:
  assumes "\<And>a s. fst (tool a s) = Inr ()"
  shows "fst (initConfig tool env config m) = Inr ()
     \<and> performed (snd (initConfig tool env config m)) = performed m @
          [EnsureDir (configExecDir env config), GitInit (configExecDir env config),
           AddConfig (configExecDir env config) ''user.name'' (userName config),
           AddConfig (configExecDir env config) ''user.email'' (userEmail config)]
     \<and> (execDir config = None \<or> execDir config = Some [] \<longrightarrow> configExecDir env config =
           (if path_isAbsolute env (os_tmpdir env) then os_tmpdir env
            else path_join env (process_cwd env) (os_tmpdir env)))
     \<and> (\<forall>d. execDir config = Some d \<and> d \<noteq> [] \<longrightarrow> configExecDir env config =
           (if path_isAbsolute env d then d else path_join env (process_cwd env) d))"
proof -
  have p: "perform tool a m' = (Inr (), \<lparr> performed = performed m' @ [a], sys = snd (tool a (sys m')) \<rparr>)"
    for a m'
    using assms [of a "sys m'"] by (cases "tool a (sys m')") (simp add: perform_def)
  have a: "fst (initConfig tool env config m) = Inr ()"
    by (simp add: initConfig_def p Let_def)
  have b: "performed (snd (initConfig tool env config m)) = performed m @
          [EnsureDir (configExecDir env config), GitInit (configExecDir env config),
           AddConfig (configExecDir env config) ''user.name'' (userName config),
           AddConfig (configExecDir env config) ''user.email'' (userEmail config)]"
    by (simp add: initConfig_def p Let_def)
  have c: "execDir config = None \<or> execDir config = Some [] \<longrightarrow> configExecDir env config =
           (if path_isAbsolute env (os_tmpdir env) then os_tmpdir env
            else path_join env (process_cwd env) (os_tmpdir env))"
    by (auto simp: configExecDir_def execDir_or_tmpdir_def Let_def)
  have d: "\<forall>d. execDir config = Some d \<and> d \<noteq> [] \<longrightarrow> configExecDir env config =
           (if path_isAbsolute env d then d else path_join env (process_cwd env) d)"
    by (auto simp: configExecDir_def execDir_or_tmpdir_def Let_def)
  from a b c d show ?thesis by blast
qed

theorem initConfig_actions_witness:
  "performed (snd (initConfig (\<lambda>a s. (Inr (), s))
      \<lparr> os_tmpdir = ''/tmp'', process_cwd = ''/home/ci'',
        path_isAbsolute = (\<lambda>p. prefix ''/'' p), path_join = (\<lambda>a b. a @ ''/'' @ b) \<rparr>
      \<lparr> userName = ''bot'', userEmail = ''bot@example.com'', execDir = Some ''work'' \<rparr>
      \<lparr> performed = [], sys = () \<rparr>))
   = [EnsureDir ''/home/ci/work'', GitInit ''/home/ci/work'',
      AddConfig ''/home/ci/work'' ''user.name'' ''bot'',
      AddConfig ''/home/ci/work'' ''user.email'' ''bot@example.com'']
   \<and> performed (snd (initConfig (\<lambda>a s. (Inr (), s))
      \<lparr> os_tmpdir = ''/tmp'', process_cwd = ''/home/ci'',
        path_isAbsolute = (\<lambda>p. prefix ''/'' p), path_join = (\<lambda>a b. a @ ''/'' @ b) \<rparr>
      \<lparr> userName = ''bot'', userEmail = ''bot@example.com'', execDir = None \<rparr>
      \<lparr> performed = [], sys = () \<rparr>))
   = [EnsureDir ''/tmp'', GitInit ''/tmp'',
      AddConfig ''/tmp'' ''user.name'' ''bot'',
      AddConfig ''/tmp'' ''user.email'' ''bot@example.com'']
   \<and> performed (snd (initConfig (\<lambda>a s. (Inr (), s))
      \<lparr> os_tmpdir = ''/tmp'', process_cwd = ''/home/ci'',
        path_isAbsolute = (\<lambda>p. prefix ''/'' p), path_join = (\<lambda>a b. a @ ''/'' @ b) \<rparr>
      \<lparr> userName = ''bot'', userEmail = ''bot@example.com'', execDir = Some [] \<rparr>
      \<lparr> performed = [], sys = () \<rparr>))
   = [EnsureDir ''/tmp'', GitInit ''/tmp'',
      AddConfig ''/tmp'' ''user.name'' ''bot'',
      AddConfig ''/tmp'' ''user.email'' ''bot@example.com'']"
  using initConfig_actions [of "\<lambda>a s. (Inr (), s)"
      "\<lparr> os_tmpdir = ''/tmp'', process_cwd = ''/home/ci'',
        path_isAbsolute = (\<lambda>p. prefix ''/'' p), path_join = (\<lambda>a b. a @ ''/'' @ b) \<rparr>"
      "\<lparr> userName = ''bot'', userEmail = ''bot@example.com'', execDir = Some ''work'' \<rparr>"
      "\<lparr> performed = [], sys = () \<rparr>"]
    initConfig_actions [of "\<lambda>a s. (Inr (), s)"
      "\<lparr> os_tmpdir = ''/tmp'', process_cwd = ''/home/ci'',
        path_isAbsolute = (\<lambda>p. prefix ''/'' p), path_join = (\<lambda>a b. a @ ''/'' @ b) \<rparr>"
      "\<lparr> userName = ''bot'', userEmail = ''bot@example.com'', execDir = None \<rparr>"
      "\<lparr> performed = [], sys = () \<rparr>"]
    initConfig_actions [of "\<lambda>a s. (Inr (), s)"
      "\<lparr> os_tmpdir = ''/tmp'', process_cwd = ''/home/ci'',
        path_isAbsolute = (\<lambda>p. prefix ''/'' p), path_join = (\<lambda>a b. a @ ''/'' @ b) \<rparr>"
      "\<lparr> userName = ''bot'', userEmail = ''bot@example.com'', execDir = Some [] \<rparr>"
      "\<lparr> performed = [], sys = () \<rparr>"]
  by simp

end
